theory Spec2Isabelle
  imports Main "HOL-Library.Sublist"
begin

section \<open>Document splicer: \<open>insertMultiLineString\<close>\<close>

subsection \<open>Strings and the file layer\<close>

text \<open>
  A Go string is a sequence of bytes; \<open>len\<close>, \<open>strings.Index\<close> and slicing all count bytes.
  It is modelled as \<^typ>\<open>string\<close>.

  \<open>strings.Index(s, substr)\<close> is the index of the first instance of \<open>substr\<close> in \<open>s\<close>,
  or \<open>-1\<close> when there is none; the empty string is found at index 0.
\<close>

fun Index :: "string \<Rightarrow> string \<Rightarrow> int" where
  "Index [] substr = (if substr = [] then 0 else - 1)"
| "Index (c # s) substr =
     (if prefix substr (c # s) then 0
      else (let i = Index s substr in if i = - 1 then - 1 else i + 1))"

text \<open>
  The slice expression \<open>s[:n]\<close> panics when \<open>n\<close> is out of range, \<open>s[m:]\<close> likewise.
  Both return \<open>None\<close> for the panic.
\<close>

definition slice_to :: "string \<Rightarrow> int \<Rightarrow> string option" where
  "slice_to s n = (if 0 \<le> n \<and> n \<le> int (length s) then Some (take (nat n) s) else None)"

definition slice_from :: "string \<Rightarrow> int \<Rightarrow> string option" where
  "slice_from s m = (if 0 \<le> m \<and> m \<le> int (length s) then Some (drop (nat m) s) else None)"

text \<open>
  Errors are values. \<open>PathError\<close> stands for what \<open>os.ReadFile\<close> and \<open>os.WriteFile\<close> return,
  \<open>Errorf\<close> carries the message formatted by \<open>fmt.Errorf\<close>.
\<close>

datatype error = PathError string string string | Errorf string

fun Error :: "error \<Rightarrow> string" where
  "Error (PathError op path msg) = op @ '' '' @ path @ '': '' @ msg"
| "Error (Errorf msg) = msg"

text \<open>
  The file system: the content of every existing file, and which paths may be written.
  \<open>os.ReadFile\<close> fails on a path that has no file; \<open>os.WriteFile\<close> fails on a path that
  is not writable and otherwise replaces the whole content.
\<close>

record FS =
  files :: "string \<rightharpoonup> string"
  writable :: "string \<Rightarrow> bool"

definition ReadFile :: "FS \<Rightarrow> string \<Rightarrow> error + string" where
  "ReadFile fs filePath =
     (case files fs filePath of
        None \<Rightarrow> Inl (PathError ''open'' filePath ''no such file or directory'')
      | Some content \<Rightarrow> Inr content)"

definition WriteFile :: "FS \<Rightarrow> string \<Rightarrow> string \<Rightarrow> error option \<times> FS" where
  "WriteFile fs filePath data =
     (if writable fs filePath
      then (None, fs\<lparr>files := (files fs)(filePath \<mapsto> data)\<rparr>)
      else (Some (PathError ''open'' filePath ''permission denied''), fs))"

text \<open>
  A call either returns its \<open>error\<close> result (\<open>None\<close> for \<open>nil\<close>) or panics.
\<close>

datatype outcome = Returned "error option" | Panicked

subsection \<open>The splice\<close>

definition insertMultiLineString ::
  "FS \<Rightarrow> string \<Rightarrow> string \<Rightarrow> string \<Rightarrow> string \<Rightarrow> outcome \<times> FS" where
  "insertMultiLineString fs filePath multiLineString startPattern endPattern =
     (case ReadFile fs filePath of
        Inl err \<Rightarrow> (Returned (Some err), fs)
      | Inr fileContent \<Rightarrow>
          (let startIndex = Index fileContent startPattern;
               endIndex = Index fileContent endPattern
           in if startIndex = - 1 \<or> endIndex = - 1
              then (Returned (Some (Errorf (''starting ('' @ startPattern @ '') or ending (''
                      @ endPattern @ '') string not found in the file''))), fs)
              else (case slice_to fileContent (startIndex + int (length startPattern) + 1) of
                      None \<Rightarrow> (Panicked, fs)
                    | Some front \<Rightarrow>
                        (case slice_from fileContent endIndex of
                           None \<Rightarrow> (Panicked, fs)
                         | Some rest \<Rightarrow>
                             (let updatedContent = front @ multiLineString @ ''\<newline>'' @ rest;
                                  (err, fs') = WriteFile fs filePath updatedContent
                              in case err of
                                   Some e \<Rightarrow> (Returned (Some e), fs')
                                 | None \<Rightarrow> (Returned None, fs'))))))"

text \<open>
  \<open>first_occ text pat i\<close>: the first occurrence of \<open>pat\<close> in \<open>text\<close> starts at index \<open>i\<close>.
\<close>

definition occurs_at :: "string \<Rightarrow> string \<Rightarrow> nat \<Rightarrow> bool" where
  "occurs_at text pat i = (i \<le> length text \<and> prefix pat (drop i text))"

definition first_occ :: "string \<Rightarrow> string \<Rightarrow> nat \<Rightarrow> bool" where
  "first_occ text pat i =
     (occurs_at text pat i \<and> list_all (\<lambda>j. \<not> occurs_at text pat j) [0..<i])"


section \<open>Output wrapper and type formatting\<close>

text \<open>
  Modelled from the spec: the type \<open>OutputType\<close> and its constants \<open>Markdown\<close> and \<open>Plain\<close>
  are declared in a file of the repository that is not among the sources. The spec names
  two recognised kinds, fenced and plain, and allows any other kind; \<open>OtherKind\<close> stands for
  every value of the type that is neither constant.
\<close>

datatype OutputType = Markdown | Plain | OtherKind nat

fun addMermaidToType :: "string \<Rightarrow> OutputType \<Rightarrow> string" where
  "addMermaidToType mermaidCode Markdown = ''```mermaid\<newline>'' @ mermaidCode @ ''\<newline>```''"
| "addMermaidToType mermaidCode Plain = mermaidCode"
| "addMermaidToType mermaidCode _ = mermaidCode"

text \<open>
  \<open>strings.ReplaceAll(s, old, new)\<close> for a pattern \<open>old\<close> of one byte, which is the only way
  this program calls it: every byte equal to \<open>old\<close> is replaced by the string \<open>new\<close>.
\<close>

fun ReplaceAll :: "string \<Rightarrow> char \<Rightarrow> string \<Rightarrow> string" where
  "ReplaceAll [] old new = []"
| "ReplaceAll (c # s) old new =
     (if c = old then new @ ReplaceAll s old new else c # ReplaceAll s old new)"

definition formatType :: "string \<Rightarrow> string" where
  "formatType s =
     (if s = ''time.Time'' then ''timestamp''
      else if s = ''map[string]interface {}'' \<or> s = ''map[string]interface{}''
              \<or> s = ''map[string]any'' then ''jsonb''
      else ReplaceAll s (CHR ''.'') ''-'')"

section \<open>Diagram builder: \<open>generateMermaidCode\<close>\<close>

subsection \<open>The schema graph\<close>

text \<open>
  The graph comes from the schema library; the builder only reads it. Each record keeps
  what the builder reads: of a field its name and the text of its type
  (\<open>Type.String()\<close>), of an edge its name, the name of the target type (\<open>Type.Name\<close>), its
  relation, the name of the edge it is the inverse of (empty for a forward edge) and the
  name of the edge \<open>Ref\<close> points to (\<open>None\<close> for a nil pointer).
\<close>

record Field =
  Field_Name :: string
  Field_Type :: string

record ForeignKey =
  FK_Field :: Field
  UserDefined :: bool

datatype Rel = Unk | O2O | O2M | M2O | M2M

record Relation =
  Rel_Type :: Rel
  Table :: string
  Columns :: "string list"

record Edge =
  Edge_Name :: string
  Edge_Type_Name :: string
  Edge_Rel :: Relation
  Inverse :: string
  Edge_Ref :: "string option"

record Node =
  Node_Name :: string
  Node_ID :: "Field option"
  CompositeID :: bool
  Fields :: "Field list"
  ForeignKeys :: "ForeignKey list"
  Edges :: "Edge list"

record Graph =
  Nodes :: "Node list"

definition Edge_M2M :: "Edge \<Rightarrow> bool" where
  "Edge_M2M e = (Rel_Type (Edge_Rel e) = M2M)"

definition Edge_O2M :: "Edge \<Rightarrow> bool" where
  "Edge_O2M e = (Rel_Type (Edge_Rel e) = O2M)"

definition Edge_M2O :: "Edge \<Rightarrow> bool" where
  "Edge_M2O e = (Rel_Type (Edge_Rel e) = M2O)"

definition IsInverse :: "Edge \<Rightarrow> bool" where
  "IsInverse e = (Inverse e \<noteq> [])"

definition HasOneFieldID :: "Node \<Rightarrow> bool" where
  "HasOneFieldID t = (\<not> CompositeID t \<and> Node_ID t \<noteq> None)"

subsection \<open>The builder\<close>

text \<open>
  A \<open>strings.Builder\<close> is the text written so far. \<open>WriteString\<close> appends and returns a
  nil error, always; the first pass drops the result, the second pass tests it.
\<close>

definition WriteString :: "string \<Rightarrow> string \<Rightarrow> string \<times> error option" where
  "WriteString builder s = (builder @ s, None)"

definition getEdgeRelationship :: "Edge \<Rightarrow> string" where
  "getEdgeRelationship edge =
     (if Edge_O2M edge then ''|o--o{''
      else if Edge_M2O edge then ''}o--o|''
      else if Edge_M2M edge then ''}o--o{''
      else ''|o--o|'')"

fun getEdgeRefName :: "string option \<Rightarrow> string" where
  "getEdgeRefName None = []"
| "getEdgeRefName (Some ref_Name) = ''-'' @ ref_Name"

fun writeFields :: "Field list \<Rightarrow> string \<Rightarrow> string" where
  "writeFields [] builder = builder"
| "writeFields (field # rest) builder =
     writeFields rest
       (fst (WriteString builder
          (''  '' @ formatType (Field_Type field) @ '' '' @ Field_Name field @ ''\<newline>'')))"

fun writeForeignKeys :: "ForeignKey list \<Rightarrow> string \<Rightarrow> string" where
  "writeForeignKeys [] builder = builder"
| "writeForeignKeys (foreignKey # rest) builder =
     (if UserDefined foreignKey then writeForeignKeys rest builder
      else writeForeignKeys rest
        (fst (WriteString builder
           (''  '' @ formatType (Field_Type (FK_Field foreignKey)) @ '' ''
              @ Field_Name (FK_Field foreignKey) @ '' FK\<newline>''))))"

fun writeColumns :: "string list \<Rightarrow> string \<Rightarrow> string" where
  "writeColumns [] builder = builder"
| "writeColumns (column # rest) builder =
     writeColumns rest
       (fst (WriteString builder (''  '' @ ''int'' @ '' '' @ column @ '' PK,FK\<newline>'')))"

fun writeJoinTables :: "Edge list \<Rightarrow> string \<Rightarrow> string" where
  "writeJoinTables [] builder = builder"
| "writeJoinTables (edge # rest) builder =
     (if Edge_M2M edge
      then (if \<not> IsInverse edge
            then (let rel = Edge_Rel edge;
                      b1 = fst (WriteString builder ('' '' @ Table rel @ '' {\<newline>''));
                      b2 = writeColumns (Columns rel) b1;
                      b3 = fst (WriteString b2 '' }\<newline>\<newline>'')
                  in writeJoinTables rest b3)
            else writeJoinTables rest builder)
      else writeJoinTables rest builder)"

definition writeEntity :: "Node \<Rightarrow> string \<Rightarrow> string" where
  "writeEntity node builder =
     (let b1 = fst (WriteString builder ('' '' @ Node_Name node @ '' {\<newline>''));
          b2 = (if HasOneFieldID node
                then (case Node_ID node of
                        Some ident \<Rightarrow>
                          fst (WriteString b1
                            (''  '' @ formatType (Field_Type ident) @ '' '' @ Field_Name ident
                               @ '' PK\<newline>''))
                      | None \<Rightarrow> b1)
                else b1);
          b3 = writeFields (Fields node) b2;
          b4 = writeForeignKeys (ForeignKeys node) b3
      in fst (WriteString b4 '' }\<newline>\<newline>''))"

fun writeNodes :: "Node list \<Rightarrow> string \<Rightarrow> string" where
  "writeNodes [] builder = builder"
| "writeNodes (node # rest) builder =
     writeNodes rest (writeJoinTables (Edges node) (writeEntity node builder))"

text \<open>
  The body of the inner loop of the second pass, for one edge: \<open>Inr\<close> the builder with which
  the loop goes on, \<open>Inl\<close> the error with which the function returns.
\<close>

definition writeEdge :: "Node \<Rightarrow> Edge \<Rightarrow> string \<Rightarrow> error + string" where
  "writeEdge node edge builder =
     (if Edge_M2M edge
      then Inr (fst (WriteString builder
             ('' '' @ Node_Name node @ '' '' @ ''|o--o{'' @ '' '' @ Table (Edge_Rel edge)
                @ '' : '' @ Edge_Name edge @ getEdgeRefName (Edge_Ref edge) @ ''\<newline>'')))
      else if IsInverse edge then Inr builder
      else (case WriteString builder
               ('' '' @ Node_Name node @ '' '' @ getEdgeRelationship edge @ '' ''
                  @ Edge_Type_Name edge @ '' : '' @ Edge_Name edge
                  @ getEdgeRefName (Edge_Ref edge) @ ''\<newline>'') of
              (b, Some err) \<Rightarrow> Inl (Errorf (''failed to write string: '' @ Error err))
            | (b, None) \<Rightarrow> Inr b))"

fun writeEdges :: "Node \<Rightarrow> Edge list \<Rightarrow> string \<Rightarrow> error + string" where
  "writeEdges node [] builder = Inr builder"
| "writeEdges node (edge # rest) builder =
     (case writeEdge node edge builder of
        Inl err \<Rightarrow> Inl err
      | Inr b \<Rightarrow> writeEdges node rest b)"

fun writeRelationships :: "Node list \<Rightarrow> string \<Rightarrow> error + string" where
  "writeRelationships [] builder = Inr builder"
| "writeRelationships (node # rest) builder =
     (case writeEdges node (Edges node) builder of
        Inl err \<Rightarrow> Inl err
      | Inr b \<Rightarrow> writeRelationships rest b)"

definition generateMermaidCode :: "Graph \<Rightarrow> error + string" where
  "generateMermaidCode graph =
     (let b0 = fst (WriteString [] ''erDiagram\<newline>'');
          b1 = writeNodes (Nodes graph) b0
      in writeRelationships (Nodes graph) b1)"

section \<open>The diagram as lines of text\<close>

text \<open>
  The text the builder writes, described line by line. Every write of the builder ends
  in a newline, so the output is a sequence of lines, each followed by a newline.
\<close>

abbreviation (input) NL :: char where
  "NL \<equiv> CHR ''\<newline>''"

definition unlines :: "string list \<Rightarrow> string" where
  "unlines ls = concat (map (\<lambda>l. l @ ''\<newline>'') ls)"

text \<open>
  The lines of an entity block: the header, the identifier line, one line for each field,
  one for each foreign key that is not user defined, and the closing \<open>}\<close> with the empty
  line after it.
\<close>

definition fieldLine :: "Field \<Rightarrow> string" where
  "fieldLine f = ''  '' @ formatType (Field_Type f) @ '' '' @ Field_Name f"

definition idLines :: "Node \<Rightarrow> string list" where
  "idLines n = (if HasOneFieldID n then (case Node_ID n of Some f \<Rightarrow> [fieldLine f @ '' PK''] | None \<Rightarrow> []) else [])"

definition fkLines :: "ForeignKey list \<Rightarrow> string list" where
  "fkLines fks = map (\<lambda>fk. fieldLine (FK_Field fk) @ '' FK'') (filter (\<lambda>fk. \<not> UserDefined fk) fks)"

definition entityLines :: "Node \<Rightarrow> string list" where
  "entityLines n = ('' '' @ Node_Name n @ '' {'') # idLines n @ map fieldLine (Fields n)
      @ fkLines (ForeignKeys n) @ ['' }'', []]"

text \<open>
  The lines of the join table of an edge (none unless the edge is many-to-many and not
  inverse), the lines of a node in the first pass, the relationship line of an edge in the
  second pass, and all the lines of a graph.
\<close>

definition joinTableLines :: "Edge \<Rightarrow> string list" where
  "joinTableLines e =
     (if Edge_M2M e \<and> \<not> IsInverse e
      then ('' '' @ Table (Edge_Rel e) @ '' {'')
             # map (\<lambda>c. ''  int '' @ c @ '' PK,FK'') (Columns (Edge_Rel e)) @ ['' }'', []]
      else [])"

definition nodeLines :: "Node \<Rightarrow> string list" where
  "nodeLines n = entityLines n @ concat (map joinTableLines (Edges n))"

definition edgeLines :: "Node \<Rightarrow> Edge \<Rightarrow> string list" where
  "edgeLines n e =
     (if Edge_M2M e
      then ['' '' @ Node_Name n @ '' |o--o{ '' @ Table (Edge_Rel e) @ '' : '' @ Edge_Name e
              @ getEdgeRefName (Edge_Ref e)]
      else if IsInverse e then []
      else ['' '' @ Node_Name n @ '' '' @ getEdgeRelationship e @ '' '' @ Edge_Type_Name e
              @ '' : '' @ Edge_Name e @ getEdgeRefName (Edge_Ref e)])"

definition graphLines :: "Graph \<Rightarrow> string list" where
  "graphLines g = ''erDiagram'' # concat (map nodeLines (Nodes g))
      @ concat (map (\<lambda>n. concat (map (edgeLines n) (Edges n))) (Nodes g))"

subsection \<open>The join-table block and its occurrences\<close>

text \<open>
  The block of a join table as the specification describes it: the header line, one
  line for each relation column, and the closing line followed by an empty line.
\<close>

definition joinTableBlock :: "string \<Rightarrow> string list \<Rightarrow> string" where
  "joinTableBlock table columns =
     '' '' @ table @ '' {\<newline>''
       @ concat (map (\<lambda>column. ''  int '' @ column @ '' PK,FK\<newline>'') columns)
       @ '' }\<newline>\<newline>''"

text \<open>
  \<open>occurrences pat text\<close> counts the positions of \<open>text\<close> at which \<open>pat\<close> starts, that is,
  how many times \<open>pat\<close> appears in \<open>text\<close>.
\<close>

fun occurrences :: "string \<Rightarrow> string \<Rightarrow> nat" where
  "occurrences pat [] = (if pat = [] then 1 else 0)"
| "occurrences pat (c # s) = (if prefix pat (c # s) then 1 else 0) + occurrences pat s"

definition allEdges :: "Graph \<Rightarrow> Edge list" where
  "allEdges graph = concat (map Edges (Nodes graph))"

text \<open>
  \<open>emitsTable T e\<close>: the first pass writes a join-table block for table \<open>T\<close> at edge \<open>e\<close>.
  \<open>hdr T\<close> is the header line of that block.
\<close>

definition emitsTable :: "string \<Rightarrow> Edge \<Rightarrow> bool" where
  "emitsTable T e = (Edge_M2M e \<and> \<not> IsInverse e \<and> Table (Edge_Rel e) = T)"

definition hdr :: "string \<Rightarrow> string" where
  "hdr T = '' '' @ T @ '' {''"

subsection \<open>Names that are identifiers\<close>

text \<open>
  The data model assumes that names are identifiers of the diagram grammar. Here an
  identifier is a string without space, newline and opening brace; the text of a type
  may hold anything but a newline (\<open>map[string]interface {}\<close> has a space and a brace).
\<close>

definition ident :: "string \<Rightarrow> bool" where
  "ident s = (CHR '' '' \<notin> set s \<and> CHR ''\<newline>'' \<notin> set s \<and> CHR ''{'' \<notin> set s)"

definition field_ok :: "Field \<Rightarrow> bool" where
  "field_ok f = (ident (Field_Name f) \<and> CHR ''\<newline>'' \<notin> set (Field_Type f))"

definition edge_ok :: "Edge \<Rightarrow> bool" where
  "edge_ok e = (ident (Edge_Name e) \<and> ident (Edge_Type_Name e) \<and> ident (Table (Edge_Rel e))
     \<and> list_all ident (Columns (Edge_Rel e))
     \<and> (case Edge_Ref e of None \<Rightarrow> True | Some r \<Rightarrow> ident r))"

definition node_ok :: "Node \<Rightarrow> bool" where
  "node_ok n = (ident (Node_Name n)
     \<and> (case Node_ID n of None \<Rightarrow> True | Some f \<Rightarrow> field_ok f)
     \<and> list_all field_ok (Fields n)
     \<and> list_all (\<lambda>fk. field_ok (FK_Field fk)) (ForeignKeys n)
     \<and> list_all edge_ok (Edges n))"

definition graph_ok :: "Graph \<Rightarrow> bool" where
  "graph_ok graph = list_all node_ok (Nodes graph)"

section \<open>Example inputs\<close>

text \<open>A file system that holds one file, which may be written.\<close>

definition oneFile :: "string \<Rightarrow> string \<Rightarrow> FS" where
  "oneFile filePath content = \<lparr>files = [filePath \<mapsto> content], writable = (\<lambda>p. p = filePath)\<rparr>"

text \<open>
  A schema with users, groups and pets: users and groups are related many-to-many through
  the join table \<open>user_groups\<close>, a user has pets (one-to-many, with the inverse edge
  \<open>owner\<close> on the pet) and one card (one-to-one). \<open>userFirst\<close> lists the forward edge of the
  many-to-many pair first, \<open>groupFirst\<close> the inverse edge.
\<close>

definition userGroups :: Relation where
  "userGroups = \<lparr>Rel_Type = M2M, Table = ''user_groups'', Columns = [''user_id'', ''group_id'']\<rparr>"

definition groupsEdge :: Edge where
  "groupsEdge = \<lparr>Edge_Name = ''groups'', Edge_Type_Name = ''Group'', Edge_Rel = userGroups,
     Inverse = [], Edge_Ref = Some ''users''\<rparr>"

definition usersEdge :: Edge where
  "usersEdge = \<lparr>Edge_Name = ''users'', Edge_Type_Name = ''User'', Edge_Rel = userGroups,
     Inverse = ''groups'', Edge_Ref = Some ''groups''\<rparr>"

definition petsEdge :: Edge where
  "petsEdge = \<lparr>Edge_Name = ''pets'', Edge_Type_Name = ''Pet'',
     Edge_Rel = \<lparr>Rel_Type = O2M, Table = ''pets'', Columns = [''user_pets'']\<rparr>,
     Inverse = [], Edge_Ref = Some ''owner''\<rparr>"

definition ownerEdge :: Edge where
  "ownerEdge = \<lparr>Edge_Name = ''owner'', Edge_Type_Name = ''User'',
     Edge_Rel = \<lparr>Rel_Type = M2O, Table = ''pets'', Columns = [''user_pets'']\<rparr>,
     Inverse = ''pets'', Edge_Ref = Some ''pets''\<rparr>"

definition cardEdge :: Edge where
  "cardEdge = \<lparr>Edge_Name = ''card'', Edge_Type_Name = ''Card'',
     Edge_Rel = \<lparr>Rel_Type = O2O, Table = ''cards'', Columns = [''user_card'']\<rparr>,
     Inverse = [], Edge_Ref = None\<rparr>"

definition idField :: Field where
  "idField = \<lparr>Field_Name = ''id'', Field_Type = ''int''\<rparr>"

definition userNode :: Node where
  "userNode = \<lparr>Node_Name = ''User'', Node_ID = Some idField, CompositeID = False,
     Fields = [\<lparr>Field_Name = ''name'', Field_Type = ''string''\<rparr>,
               \<lparr>Field_Name = ''created_at'', Field_Type = ''time.Time''\<rparr>],
     ForeignKeys = [], Edges = [groupsEdge, petsEdge]\<rparr>"

definition groupNode :: Node where
  "groupNode = \<lparr>Node_Name = ''Group'', Node_ID = Some idField, CompositeID = False,
     Fields = [\<lparr>Field_Name = ''name'', Field_Type = ''string''\<rparr>],
     ForeignKeys = [], Edges = [usersEdge]\<rparr>"

definition ownerKey :: ForeignKey where
  "ownerKey = \<lparr>FK_Field = \<lparr>Field_Name = ''user_pets'', Field_Type = ''int''\<rparr>, UserDefined = False\<rparr>"

definition vetKey :: ForeignKey where
  "vetKey = \<lparr>FK_Field = \<lparr>Field_Name = ''vet_id'', Field_Type = ''uuid.UUID''\<rparr>, UserDefined = True\<rparr>"

definition petNode :: Node where
  "petNode = \<lparr>Node_Name = ''Pet'', Node_ID = Some idField, CompositeID = False,
     Fields = [\<lparr>Field_Name = ''name'', Field_Type = ''string''\<rparr>],
     ForeignKeys = [vetKey, ownerKey], Edges = [ownerEdge]\<rparr>"

definition userFirst :: Graph where
  "userFirst = \<lparr>Nodes = [userNode, groupNode, petNode]\<rparr>"

definition groupFirst :: Graph where
  "groupFirst = \<lparr>Nodes = [groupNode, userNode, petNode]\<rparr>"

text \<open>
  Two graphs in which the block of \<open>user_groups\<close> is written more than once: in
  \<open>sharedTable\<close> two many-to-many pairs between users and groups name the same join
  table; in \<open>lookalike\<close> an entity carries the name of the join table and its two fields
  are named like annotated columns.
\<close>

definition adminOfEdge :: Edge where
  "adminOfEdge = \<lparr>Edge_Name = ''admin_of'', Edge_Type_Name = ''Group'', Edge_Rel = userGroups,
     Inverse = [], Edge_Ref = Some ''admins''\<rparr>"

definition adminsEdge :: Edge where
  "adminsEdge = \<lparr>Edge_Name = ''admins'', Edge_Type_Name = ''User'', Edge_Rel = userGroups,
     Inverse = ''admin_of'', Edge_Ref = Some ''admin_of''\<rparr>"

definition sharedTable :: Graph where
  "sharedTable = \<lparr>Nodes =
     [\<lparr>Node_Name = ''User'', Node_ID = Some idField, CompositeID = False, Fields = [],
        ForeignKeys = [], Edges = [groupsEdge, adminOfEdge]\<rparr>,
      \<lparr>Node_Name = ''Group'', Node_ID = Some idField, CompositeID = False, Fields = [],
        ForeignKeys = [], Edges = [usersEdge, adminsEdge]\<rparr>]\<rparr>"

definition lookalike :: Graph where
  "lookalike = \<lparr>Nodes =
     [\<lparr>Node_Name = ''User'', Node_ID = Some idField, CompositeID = False, Fields = [],
        ForeignKeys = [], Edges = [groupsEdge]\<rparr>,
      \<lparr>Node_Name = ''Group'', Node_ID = Some idField, CompositeID = False, Fields = [],
        ForeignKeys = [], Edges = [usersEdge]\<rparr>,
      \<lparr>Node_Name = ''user_groups'', Node_ID = None, CompositeID = False,
        Fields = [\<lparr>Field_Name = ''user_id PK,FK'', Field_Type = ''int''\<rparr>,
                  \<lparr>Field_Name = ''group_id PK,FK'', Field_Type = ''int''\<rparr>],
        ForeignKeys = [], Edges = []\<rparr>]\<rparr>"

section \<open>Properties of the splicer\<close>

lemma Index_ge: "- 1 \<le> Index s p"
  by (induction s) (auto simp: Let_def)

lemma Index_first_occ: "Index s p = int i \<Longrightarrow> first_occ s p i"
proof (induction s arbitrary: i)
  case Nil
  then show ?case by (auto simp: first_occ_def occurs_at_def split: if_splits)
next
  case (Cons c s)
  show ?case
  proof (cases "prefix p (c # s)")
    case True
    with Cons.prems show ?thesis by (simp add: first_occ_def occurs_at_def)
  next
    case False
    with Cons.prems obtain k where k: "Index s p = int k" "i = Suc k"
      using Index_ge [of s p]
      by (cases "Index s p = - 1") (auto simp: Let_def intro: that [of "nat (Index s p)"])
    from Cons.IH [OF k(1)] have fo: "first_occ s p k" .
    have "list_all (\<lambda>j. \<not> occurs_at (c # s) p j) [0..<Suc k]"
      unfolding list_all_iff
    proof
      fix j assume "j \<in> set [0..<Suc k]"
      then have jk: "j \<le> k" by auto
      show "\<not> occurs_at (c # s) p j"
      proof (cases j)
        case 0
        with False show ?thesis by (simp add: occurs_at_def)
      next
        case (Suc j')
        with jk have "j' < k" by simp
        with fo have "\<not> occurs_at s p j'" by (simp add: first_occ_def list_all_iff)
        with Suc show ?thesis by (simp add: occurs_at_def)
      qed
    qed
    moreover from fo have "occurs_at (c # s) p (Suc k)"
      by (simp add: first_occ_def occurs_at_def)
    ultimately show ?thesis using k(2) by (simp add: first_occ_def)
  qed
qed

lemma first_occ_unique: "first_occ s p i \<Longrightarrow> first_occ s p j \<Longrightarrow> i = j"
  by (rule ccontr) (auto simp: first_occ_def list_all_iff not_less linorder_neq_iff)

lemma Index_none: "Index s p = - 1 \<Longrightarrow> \<not> occurs_at s p i"
proof (induction s arbitrary: i)
  case Nil
  then show ?case by (auto simp: occurs_at_def split: if_splits)
next
  case (Cons c s)
  then have np: "\<not> prefix p (c # s)" and rec: "Index s p = - 1"
    using Index_ge [of s p] by (auto simp: Let_def split: if_splits)
  show ?case
  proof (cases i)
    case 0
    with np show ?thesis by (simp add: occurs_at_def)
  next
    case (Suc i')
    with Cons.IH [OF rec, of i'] show ?thesis by (simp add: occurs_at_def)
  qed
qed

lemma first_occ_Index: "first_occ s p i \<Longrightarrow> Index s p = int i"
proof -
  assume fo: "first_occ s p i"
  have "Index s p \<noteq> - 1"
    using Index_none [of s p i] fo by (auto simp: first_occ_def)
  with Index_ge [of s p] have "0 \<le> Index s p" by linarith
  then obtain k where k: "Index s p = int k"
    using nonneg_int_cases by blast
  from first_occ_unique [OF Index_first_occ [OF k] fo] k show ?thesis by simp
qed


lemma occurs_at_sublist: "occurs_at s p i \<Longrightarrow> sublist p s"
proof -
  assume "occurs_at s p i"
  then obtain r where "drop i s = p @ r" by (auto simp: occurs_at_def prefix_def)
  then have "s = take i s @ p @ r" by (metis append_take_drop_id)
  then show ?thesis unfolding sublist_def by blast
qed

lemma sublist_occurs_at: "sublist p s \<Longrightarrow> \<exists>i. occurs_at s p i"
proof -
  assume "sublist p s"
  then obtain u v where "s = u @ p @ v" by (auto simp: sublist_def)
  then have "occurs_at s p (length u)" by (simp add: occurs_at_def)
  then show ?thesis ..
qed

lemma Index_absent_iff: "Index s p = - 1 \<longleftrightarrow> \<not> sublist p s"
proof
  assume "Index s p = - 1"
  then show "\<not> sublist p s" using Index_none sublist_occurs_at by blast
next
  assume ns: "\<not> sublist p s"
  show "Index s p = - 1"
  proof (rule ccontr)
    assume "Index s p \<noteq> - 1"
    with Index_ge [of s p] have "0 \<le> Index s p" by linarith
    then obtain k where "Index s p = int k" using nonneg_int_cases by blast
    then have "occurs_at s p k" using Index_first_occ by (auto simp: first_occ_def)
    with ns show False using occurs_at_sublist by blast
  qed
qed

lemma first_occ_bound: "first_occ s p i \<Longrightarrow> i + length p \<le> length s"
proof -
  assume "first_occ s p i"
  then have "i \<le> length s" and "prefix p (drop i s)"
    by (auto simp: first_occ_def occurs_at_def)
  then have "length p \<le> length s - i" using prefix_length_le by fastforce
  with \<open>i \<le> length s\<close> show ?thesis by linarith
qed

text \<open>
  What the splice does once the file is read and both indices are known: it panics when
  the slice of the front part ends beyond the text, and otherwise hands the new content
  to \<open>WriteFile\<close>.
\<close>

lemma insertMultiLineString_found:
  assumes rd: "files fs filePath = Some text"
    and s: "first_occ text startPattern s"
    and e: "first_occ text endPattern e"
  shows "insertMultiLineString fs filePath ins startPattern endPattern =
     (if s + length startPattern + 1 \<le> length text
      then (let w = WriteFile fs filePath
                      (take (s + length startPattern + 1) text @ ins @ ''\<newline>'' @ drop e text)
            in (Returned (fst w), snd w))
      else (Panicked, fs))"
proof -
  have si: "Index text startPattern = int s" using s by (rule first_occ_Index)
  have ei: "Index text endPattern = int e" using e by (rule first_occ_Index)
  have el: "e \<le> length text" using e by (simp add: first_occ_def occurs_at_def)
  have st: "slice_to text (int s + int (length startPattern) + 1)
      = (if s + length startPattern + 1 \<le> length text
         then Some (take (s + length startPattern + 1) text) else None)"
    by (simp add: slice_to_def nat_add_distrib)
  have sf: "slice_from text (int e) = Some (drop e text)"
    using el by (simp add: slice_from_def)
  show ?thesis
    unfolding insertMultiLineString_def ReadFile_def
    by (simp add: rd si ei st sf Let_def split: prod.splits option.splits)
qed

text \<open>
  When the markers are in order (the end marker starts at or after the end of the start
  marker) and the end marker is not empty, a character follows the start marker.
\<close>

lemma ordered_markers_follow:
  assumes "first_occ text startPattern s" and "first_occ text endPattern e"
    and "s + length startPattern \<le> e" and "endPattern \<noteq> []"
  shows "s + length startPattern + 1 \<le> length text"
proof -
  from first_occ_bound [OF assms(2)] have "e + length endPattern \<le> length text" .
  moreover from assms(4) have "0 < length endPattern" by simp
  ultimately show ?thesis using assms(3) by linarith
qed

subsection \<open>The splice rule\<close>

text \<open>
  C6 (as amended). For every file text in which the first occurrence of the start pattern
  is at index \<open>s\<close>, the first occurrence of the end pattern is at index \<open>e\<close>, and at least
  one character follows the start pattern, \<open>insertMultiLineString\<close> hands to the file
  write exactly: the text up to and including the start pattern and one more character,
  the insertion string, a newline, and the text from index \<open>e\<close> on; its result is that of
  the write. What lay between the character after the start pattern and the end pattern
  is not part of the new content.
\<close>

theorem splice_rule:
  assumes "files fs filePath = Some text"
    and "first_occ text startPattern s"
    and "first_occ text endPattern e"
    and "s + length startPattern < length text"
  shows "insertMultiLineString fs filePath ins startPattern endPattern =
     (Returned (fst (WriteFile fs filePath
         (take (s + length startPattern + 1) text @ ins @ ''\<newline>'' @ drop e text))),
      snd (WriteFile fs filePath
         (take (s + length startPattern + 1) text @ ins @ ''\<newline>'' @ drop e text)))"
  using insertMultiLineString_found [OF assms(1-3), of ins] assms(4)
  by (simp add: Let_def)

theorem splice_rule_witness:
  "files (oneFile ''README.md'' ''# Doc\<newline><!--s-->\<newline>old\<newline><!--e-->\<newline>'') ''README.md''
      = Some ''# Doc\<newline><!--s-->\<newline>old\<newline><!--e-->\<newline>''
   \<and> first_occ ''# Doc\<newline><!--s-->\<newline>old\<newline><!--e-->\<newline>'' ''<!--s-->'' 6
   \<and> first_occ ''# Doc\<newline><!--s-->\<newline>old\<newline><!--e-->\<newline>'' ''<!--e-->'' 19
   \<and> 6 + length ''<!--s-->'' < length ''# Doc\<newline><!--s-->\<newline>old\<newline><!--e-->\<newline>''
   \<and> insertMultiLineString (oneFile ''README.md'' ''# Doc\<newline><!--s-->\<newline>old\<newline><!--e-->\<newline>'')
         ''README.md'' ''new'' ''<!--s-->'' ''<!--e-->''
       = (Returned None, oneFile ''README.md'' ''# Doc\<newline><!--s-->\<newline>new\<newline><!--e-->\<newline>'')"
proof -
  let ?t = "''# Doc\<newline><!--s-->\<newline>old\<newline><!--e-->\<newline>''"
  have h1: "files (oneFile ''README.md'' ?t) ''README.md'' = Some ?t"
    by (simp add: oneFile_def)
  have h2: "first_occ ?t ''<!--s-->'' 6" by code_simp
  have h3: "first_occ ?t ''<!--e-->'' 19" by code_simp
  have h4: "6 + length ''<!--s-->'' < length ?t" by simp
  from splice_rule [OF h1 h2 h3 h4, of "''new''"]
  have "insertMultiLineString (oneFile ''README.md'' ?t) ''README.md'' ''new'' ''<!--s-->'' ''<!--e-->''
       = (Returned None, oneFile ''README.md'' ''# Doc\<newline><!--s-->\<newline>new\<newline><!--e-->\<newline>'')"
    by (simp add: WriteFile_def oneFile_def)
  with h1 h2 h3 h4 show ?thesis by blast
qed

text \<open>
  The claim as first stated, for every text that contains both patterns, fails when the
  start pattern ends the text: in \<open><!--end-->\<newline><!--start-->\<close> both patterns occur, the
  call panics, and the file keeps its content instead of receiving the spliced one.
\<close>

theorem splice_rule_counterexample:
  "first_occ ''<!--end-->\<newline><!--start-->'' ''<!--start-->'' 11
   \<and> first_occ ''<!--end-->\<newline><!--start-->'' ''<!--end-->'' 0
   \<and> insertMultiLineString (oneFile ''README.md'' ''<!--end-->\<newline><!--start-->'')
         ''README.md'' ''X'' ''<!--start-->'' ''<!--end-->''
       = (Panicked, oneFile ''README.md'' ''<!--end-->\<newline><!--start-->'')
   \<and> files (snd (insertMultiLineString (oneFile ''README.md'' ''<!--end-->\<newline><!--start-->'')
         ''README.md'' ''X'' ''<!--start-->'' ''<!--end-->'')) ''README.md''
       \<noteq> Some (take (11 + length ''<!--start-->'' + 1) ''<!--end-->\<newline><!--start-->''
                @ ''X'' @ ''\<newline>'' @ drop 0 ''<!--end-->\<newline><!--start-->'')"
proof -
  have a: "first_occ ''<!--end-->\<newline><!--start-->'' ''<!--start-->'' 11" by code_simp
  have b: "first_occ ''<!--end-->\<newline><!--start-->'' ''<!--end-->'' 0" by code_simp
  have c: "insertMultiLineString (oneFile ''README.md'' ''<!--end-->\<newline><!--start-->'')
         ''README.md'' ''X'' ''<!--start-->'' ''<!--end-->''
       = (Panicked, oneFile ''README.md'' ''<!--end-->\<newline><!--start-->'')"
    by (simp add: insertMultiLineString_def ReadFile_def oneFile_def slice_to_def Let_def)
  show ?thesis
    unfolding c using a b by (simp add: oneFile_def)
qed


subsection \<open>The example of the specification\<close>

text \<open>
  C7 (as amended). Splicing a text \<open>X\<close> into a file whose content is
  \<open>A<<<START>>>Z<<<END>>>B\<close>, with start marker \<open><<<START>>>\<close> and end marker \<open><<<END>>>\<close>,
  writes the content \<open>A<<<START>>>Z\<close>, then \<open>X\<close>, then a newline, then \<open><<<END>>>B\<close>: the one
  character kept after the start marker is the \<open>Z\<close>, and the inserted text follows it.
\<close>

theorem splice_example:
  assumes "files fs filePath = Some ''A<<<START>>>Z<<<END>>>B''"
  shows "insertMultiLineString fs filePath X ''<<<START>>>'' ''<<<END>>>'' =
     (Returned (fst (WriteFile fs filePath (''A<<<START>>>Z'' @ X @ ''\<newline><<<END>>>B''))),
      snd (WriteFile fs filePath (''A<<<START>>>Z'' @ X @ ''\<newline><<<END>>>B'')))"
proof -
  have s: "first_occ ''A<<<START>>>Z<<<END>>>B'' ''<<<START>>>'' 1" by code_simp
  have e: "first_occ ''A<<<START>>>Z<<<END>>>B'' ''<<<END>>>'' 13" by code_simp
  show ?thesis
    using insertMultiLineString_found [OF assms s e, of X] by (simp add: Let_def)
qed

theorem splice_example_witness:
  "files (oneFile ''README.md'' ''A<<<START>>>Z<<<END>>>B'') ''README.md''
     = Some ''A<<<START>>>Z<<<END>>>B''
   \<and> insertMultiLineString (oneFile ''README.md'' ''A<<<START>>>Z<<<END>>>B'')
         ''README.md'' ''X'' ''<<<START>>>'' ''<<<END>>>''
       = (Returned None, oneFile ''README.md'' ''A<<<START>>>ZX\<newline><<<END>>>B'')"
proof -
  have h: "files (oneFile ''README.md'' ''A<<<START>>>Z<<<END>>>B'') ''README.md''
     = Some ''A<<<START>>>Z<<<END>>>B''"
    by (simp add: oneFile_def)
  from splice_example [OF h, of "''X''"] h show ?thesis
    by (simp add: WriteFile_def oneFile_def)
qed

text \<open>
  The content the specification gives for this example, \<open>A<<<START>>> X\<newline>Z<<<END>>>B\<close>, is
  not what the file holds afterwards.
\<close>

theorem splice_example_counterexample:
  "files (snd (insertMultiLineString (oneFile ''README.md'' ''A<<<START>>>Z<<<END>>>B'')
        ''README.md'' ''X'' ''<<<START>>>'' ''<<<END>>>'')) ''README.md''
     = Some ''A<<<START>>>ZX\<newline><<<END>>>B''
   \<and> files (snd (insertMultiLineString (oneFile ''README.md'' ''A<<<START>>>Z<<<END>>>B'')
        ''README.md'' ''X'' ''<<<START>>>'' ''<<<END>>>'')) ''README.md''
     \<noteq> Some ''A<<<START>>> X\<newline>Z<<<END>>>B''"
  by (simp add: insertMultiLineString_def ReadFile_def WriteFile_def oneFile_def
      slice_to_def slice_from_def Let_def)

subsection \<open>Missing markers\<close>

text \<open>
  C8. If the start pattern or the end pattern does not occur in the text of the file,
  \<open>insertMultiLineString\<close> returns an error (the one that names both patterns) and the
  file system is left as it was: nothing is written.
\<close>

theorem missing_marker_no_write:
  assumes "files fs filePath = Some text"
    and "\<not> sublist startPattern text \<or> \<not> sublist endPattern text"
  shows "insertMultiLineString fs filePath ins startPattern endPattern =
     (Returned (Some (Errorf (''starting ('' @ startPattern @ '') or ending ('' @ endPattern
        @ '') string not found in the file''))), fs)"
proof -
  from assms(2) have "Index text startPattern = - 1 \<or> Index text endPattern = - 1"
    by (simp add: Index_absent_iff)
  then show ?thesis
    unfolding insertMultiLineString_def ReadFile_def by (auto simp: assms(1) Let_def)
qed

theorem missing_marker_no_write_witness:
  "files (oneFile ''README.md'' ''# Doc\<newline><!--s-->\<newline>old\<newline>'') ''README.md''
     = Some ''# Doc\<newline><!--s-->\<newline>old\<newline>''
   \<and> sublist ''<!--s-->'' ''# Doc\<newline><!--s-->\<newline>old\<newline>''
   \<and> \<not> sublist ''<!--e-->'' ''# Doc\<newline><!--s-->\<newline>old\<newline>''
   \<and> insertMultiLineString (oneFile ''README.md'' ''# Doc\<newline><!--s-->\<newline>old\<newline>'')
         ''README.md'' ''new'' ''<!--s-->'' ''<!--e-->''
       = (Returned (Some (Errorf
           ''starting (<!--s-->) or ending (<!--e-->) string not found in the file'')),
          oneFile ''README.md'' ''# Doc\<newline><!--s-->\<newline>old\<newline>'')"
proof -
  let ?t = "''# Doc\<newline><!--s-->\<newline>old\<newline>''"
  have h1: "files (oneFile ''README.md'' ?t) ''README.md'' = Some ?t"
    by (simp add: oneFile_def)
  have ne: "\<not> sublist ''<!--e-->'' ?t" by code_simp
  then have h2: "\<not> sublist ''<!--s-->'' ?t \<or> \<not> sublist ''<!--e-->'' ?t" ..
  have ys: "sublist ''<!--s-->'' ?t" by code_simp
  from missing_marker_no_write [OF h1 h2, of "''new''"] h1 ne ys show ?thesis by simp
qed

subsection \<open>The start marker at the end of the text\<close>

text \<open>
  C10. When both patterns occur and no character follows the first occurrence of the
  start pattern, the end of the front slice is one past the length of the text, the slice
  is out of range, and the call panics without writing. When a character does follow, the
  call does not panic. So the splice is safe exactly under the precondition that at least
  one character follows the start marker.
\<close>

theorem start_marker_at_end_panics:
  assumes "files fs filePath = Some text"
    and "first_occ text startPattern s"
    and "first_occ text endPattern e"
  shows "(s + length startPattern = length text \<longrightarrow>
            Index text startPattern + int (length startPattern) + 1 = int (length text) + 1
          \<and> slice_to text (Index text startPattern + int (length startPattern) + 1) = None
          \<and> insertMultiLineString fs filePath ins startPattern endPattern = (Panicked, fs))
       \<and> (s + length startPattern \<noteq> length text \<longrightarrow>
            fst (insertMultiLineString fs filePath ins startPattern endPattern) \<noteq> Panicked)"
proof -
  have si: "Index text startPattern = int s" using assms(2) by (rule first_occ_Index)
  have le: "s + length startPattern \<le> length text" using assms(2) by (rule first_occ_bound)
  note found = insertMultiLineString_found [OF assms, of ins]
  show ?thesis
  proof (cases "s + length startPattern = length text")
    case True
    then show ?thesis using found si by (simp add: slice_to_def)
  next
    case False
    with le have "s + length startPattern + 1 \<le> length text" by linarith
    with False show ?thesis using found by (simp add: Let_def)
  qed
qed

theorem start_marker_at_end_panics_witness:
  "files (oneFile ''README.md'' ''<!--e-->\<newline><!--s-->'') ''README.md''
     = Some ''<!--e-->\<newline><!--s-->''
   \<and> first_occ ''<!--e-->\<newline><!--s-->'' ''<!--s-->'' 9
   \<and> first_occ ''<!--e-->\<newline><!--s-->'' ''<!--e-->'' 0
   \<and> 9 + length ''<!--s-->'' = length ''<!--e-->\<newline><!--s-->''
   \<and> slice_to ''<!--e-->\<newline><!--s-->''
        (Index ''<!--e-->\<newline><!--s-->'' ''<!--s-->'' + int (length ''<!--s-->'') + 1) = None
   \<and> insertMultiLineString (oneFile ''README.md'' ''<!--e-->\<newline><!--s-->'')
         ''README.md'' ''new'' ''<!--s-->'' ''<!--e-->''
       = (Panicked, oneFile ''README.md'' ''<!--e-->\<newline><!--s-->'')"
proof -
  let ?t = "''<!--e-->\<newline><!--s-->''"
  have h1: "files (oneFile ''README.md'' ?t) ''README.md'' = Some ?t"
    by (simp add: oneFile_def)
  have h2: "first_occ ?t ''<!--s-->'' 9" by code_simp
  have h3: "first_occ ?t ''<!--e-->'' 0" by code_simp
  have h4: "9 + length ''<!--s-->'' = length ?t" by simp
  from start_marker_at_end_panics [OF h1 h2 h3, of "''new''"] h4
  have "slice_to ?t (Index ?t ''<!--s-->'' + int (length ''<!--s-->'') + 1) = None
      \<and> insertMultiLineString (oneFile ''README.md'' ?t) ''README.md'' ''new'' ''<!--s-->'' ''<!--e-->''
          = (Panicked, oneFile ''README.md'' ?t)"
    by blast
  with h1 h2 h3 h4 show ?thesis by blast
qed

section \<open>Properties of the output wrapper and of type formatting\<close>

text \<open>
  C9. For every diagram text, the kind \<open>Markdown\<close> wraps it as \<open>```mermaid\<close>, newline, the
  text, newline, \<open>```\<close>; the kind \<open>Plain\<close> and every kind that is not \<open>Markdown\<close> return the
  text unchanged.
\<close>

theorem addMermaidToType_kinds:
  "addMermaidToType mermaidCode Markdown = ''```mermaid'' @ ''\<newline>'' @ mermaidCode @ ''\<newline>'' @ ''```''
   \<and> addMermaidToType mermaidCode Plain = mermaidCode
   \<and> (outputType \<noteq> Markdown \<longrightarrow> addMermaidToType mermaidCode outputType = mermaidCode)"
  by (cases outputType) simp_all

theorem addMermaidToType_kinds_witness:
  "addMermaidToType ''erDiagram\<newline>'' Markdown = ''```mermaid\<newline>erDiagram\<newline>\<newline>```''
   \<and> addMermaidToType ''erDiagram\<newline>'' Plain = ''erDiagram\<newline>''
   \<and> OtherKind 7 \<noteq> Markdown
   \<and> addMermaidToType ''erDiagram\<newline>'' (OtherKind 7) = ''erDiagram\<newline>''"
  using addMermaidToType_kinds [of "''erDiagram\<newline>''" "OtherKind 7"] by simp

lemma ReplaceAll_dot: "ReplaceAll s (CHR ''.'') ''-'' = map (\<lambda>c. if c = CHR ''.'' then CHR ''-'' else c) s"
  by (induction s) auto

lemma count_map_dot:
  "count_list (map (\<lambda>c. if c = CHR ''.'' then CHR ''-'' else c) s) (CHR ''-'')
     = count_list s (CHR ''.'') + count_list s (CHR ''-'')"
  by (induction s) auto

text \<open>
  The positions that hold \<open>a\<close> in a list and \<open>b\<close> in its image under \<open>f\<close> are as many as
  the elements \<open>a\<close> that \<open>f\<close> sends to \<open>b\<close>.
\<close>

lemma count_positions:
  "length (filter (\<lambda>i. s ! i = a \<and> map f s ! i = b) [0..<length s])
     = count_list (filter (\<lambda>c. f c = b) s) a"
proof (induction s rule: rev_induct)
  case Nil
  then show ?case by simp
next
  case (snoc x xs)
  have "filter (\<lambda>i. (xs @ [x]) ! i = a \<and> map f (xs @ [x]) ! i = b) [0..<length xs]
      = filter (\<lambda>i. xs ! i = a \<and> map f xs ! i = b) [0..<length xs]"
    by (rule filter_cong) (auto simp: nth_append)
  with snoc show ?case by (auto simp: nth_append)
qed

text \<open>
  C4. \<open>formatType\<close> maps \<open>time.Time\<close> to \<open>timestamp\<close> and each of the three spellings of
  the map-to-any type to \<open>jsonb\<close>. Every other type string keeps its length and its bytes
  except that each \<open>.\<close> becomes \<open>-\<close>: no \<open>.\<close> remains, and an input with N separators \<open>.\<close>
  has, at exactly those N positions, the separator \<open>-\<close> in the result. A \<open>-\<close> that the input
  already had stays where it was, so the result holds as many \<open>-\<close> as the input had \<open>.\<close> and
  \<open>-\<close> together.
\<close>

theorem formatType_rule:
  "formatType ''time.Time'' = ''timestamp''
   \<and> formatType ''map[string]interface {}'' = ''jsonb''
   \<and> formatType ''map[string]interface{}'' = ''jsonb''
   \<and> formatType ''map[string]any'' = ''jsonb''
   \<and> (s \<noteq> ''time.Time'' \<and> s \<noteq> ''map[string]interface {}'' \<and> s \<noteq> ''map[string]interface{}''
        \<and> s \<noteq> ''map[string]any'' \<longrightarrow>
          formatType s = map (\<lambda>c. if c = CHR ''.'' then CHR ''-'' else c) s
        \<and> length (formatType s) = length s
        \<and> CHR ''.'' \<notin> set (formatType s)
        \<and> length (filter (\<lambda>i. s ! i = CHR ''.'' \<and> formatType s ! i = CHR ''-'') [0..<length s])
            = count_list s (CHR ''.'')
        \<and> count_list (formatType s) (CHR ''-'') = count_list s (CHR ''.'') + count_list s (CHR ''-''))"
proof -
  let ?f = "\<lambda>c. if c = CHR ''.'' then CHR ''-'' else c"
  have sep: "length (filter (\<lambda>i. s ! i = CHR ''.'' \<and> map ?f s ! i = CHR ''-'') [0..<length s])
      = count_list s (CHR ''.'')"
  proof -
    have "count_list (filter (\<lambda>c. ?f c = CHR ''-'') s) (CHR ''.'') = count_list s (CHR ''.'')"
      by (induction s) auto
    with count_positions [of s "CHR ''.''" ?f "CHR ''-''"] show ?thesis by simp
  qed
  have gen: "formatType s = map ?f s
        \<and> length (formatType s) = length s
        \<and> CHR ''.'' \<notin> set (formatType s)
        \<and> length (filter (\<lambda>i. s ! i = CHR ''.'' \<and> formatType s ! i = CHR ''-'') [0..<length s])
            = count_list s (CHR ''.'')
        \<and> count_list (formatType s) (CHR ''-'') = count_list s (CHR ''.'') + count_list s (CHR ''-'')"
    if "s \<noteq> ''time.Time''" "s \<noteq> ''map[string]interface {}''" "s \<noteq> ''map[string]interface{}''"
       "s \<noteq> ''map[string]any''"
  proof -
    from that have f: "formatType s = map ?f s"
      by (simp add: formatType_def ReplaceAll_dot)
    have "CHR ''.'' \<notin> set (map ?f s)" by auto
    then show ?thesis using f count_map_dot [of s] sep by simp
  qed
  have "formatType ''time.Time'' = ''timestamp''" by (simp add: formatType_def)
  moreover have "formatType ''map[string]interface {}'' = ''jsonb''" by (simp add: formatType_def)
  moreover have "formatType ''map[string]interface{}'' = ''jsonb''" by (simp add: formatType_def)
  moreover have "formatType ''map[string]any'' = ''jsonb''" by (simp add: formatType_def)
  ultimately show ?thesis using gen by blast
qed

theorem formatType_rule_witness:
  "''map[uuid.UUID]time.Time'' \<noteq> ''time.Time''
   \<and> formatType ''map[uuid.UUID]time.Time'' = ''map[uuid-UUID]time-Time''
   \<and> CHR ''.'' \<notin> set (formatType ''map[uuid.UUID]time.Time'')
   \<and> count_list ''map[uuid.UUID]time.Time'' (CHR ''.'') = 2
   \<and> length (filter (\<lambda>i. ''map[uuid.UUID]time.Time'' ! i = CHR ''.''
                  \<and> formatType ''map[uuid.UUID]time.Time'' ! i = CHR ''-'')
         [0..<length ''map[uuid.UUID]time.Time'']) = 2
   \<and> count_list (formatType ''map[uuid.UUID]time.Time'') (CHR ''-'') = 2"
proof -
  have n: "count_list ''map[uuid.UUID]time.Time'' (CHR ''.'') = 2" by simp
  have m: "count_list ''map[uuid.UUID]time.Time'' (CHR ''-'') = 0" by simp
  from formatType_rule [of "''map[uuid.UUID]time.Time''"] n m show ?thesis by simp
qed

section \<open>Properties of the diagram builder\<close>

lemmas fixture_defs = userGroups_def groupsEdge_def usersEdge_def petsEdge_def ownerEdge_def
  cardEdge_def idField_def userNode_def groupNode_def ownerKey_def vetKey_def petNode_def
  userFirst_def groupFirst_def

lemmas model_defs = Edge_M2M_def Edge_O2M_def Edge_M2O_def IsInverse_def HasOneFieldID_def
  allEdges_def

lemmas ok_defs = graph_ok_def node_ok_def edge_ok_def field_ok_def ident_def

lemmas cex_defs = adminOfEdge_def adminsEdge_def sharedTable_def lookalike_def

subsection \<open>What the builder writes\<close>

text \<open>
  Each loop of the builder appends the lines of what it walks over, and the whole output
  is the lines of the graph; no write fails, so the function always returns a text.
\<close>

lemma unlines_simps [simp]:
  "unlines [] = []" "unlines (l # ls) = l @ ''\<newline>'' @ unlines ls"
  "unlines (xs @ ys) = unlines xs @ unlines ys"
  by (simp_all add: unlines_def)

lemma unlines_concat: "unlines (concat xss) = concat (map unlines xss)"
  by (induction xss) simp_all

lemma writeFields_eq: "writeFields fs b = b @ unlines (map fieldLine fs)"
  by (induction fs arbitrary: b) (simp_all add: WriteString_def fieldLine_def)

lemma writeForeignKeys_eq: "writeForeignKeys fks b = b @ unlines (fkLines fks)"
  by (induction fks arbitrary: b) (simp_all add: WriteString_def fieldLine_def fkLines_def)

lemma writeColumns_eq:
  "writeColumns cols b = b @ unlines (map (\<lambda>c. ''  int '' @ c @ '' PK,FK'') cols)"
  by (induction cols arbitrary: b) (simp_all add: WriteString_def)

lemma writeJoinTables_eq:
  "writeJoinTables es b = b @ unlines (concat (map joinTableLines es))"
  by (induction es arbitrary: b)
     (simp_all add: WriteString_def writeColumns_eq joinTableLines_def Let_def)

lemma writeEntity_eq: "writeEntity n b = b @ unlines (entityLines n)"
  by (simp add: writeEntity_def WriteString_def writeFields_eq writeForeignKeys_eq
      entityLines_def idLines_def fieldLine_def Let_def split: option.splits)

lemma writeNodes_eq: "writeNodes ns b = b @ unlines (concat (map nodeLines ns))"
  by (induction ns arbitrary: b)
     (simp_all add: writeEntity_eq writeJoinTables_eq nodeLines_def)

lemma writeEdge_eq: "writeEdge n e b = Inr (b @ unlines (edgeLines n e))"
  by (simp add: writeEdge_def WriteString_def edgeLines_def)

lemma writeEdges_eq: "writeEdges n es b = Inr (b @ unlines (concat (map (edgeLines n) es)))"
  by (induction es arbitrary: b) (simp_all add: writeEdge_eq)

lemma writeRelationships_eq:
  "writeRelationships ns b =
     Inr (b @ unlines (concat (map (\<lambda>n. concat (map (edgeLines n) (Edges n))) ns)))"
  by (induction ns arbitrary: b) (simp_all add: writeEdges_eq)

lemma generateMermaidCode_eq: "generateMermaidCode g = Inr (unlines (graphLines g))"
  by (simp add: generateMermaidCode_def WriteString_def writeNodes_eq writeRelationships_eq
      graphLines_def Let_def)

lemma joinTableBlock_unlines:
  "Edge_M2M e \<Longrightarrow> \<not> IsInverse e \<Longrightarrow>
   unlines (joinTableLines e) = joinTableBlock (Table (Edge_Rel e)) (Columns (Edge_Rel e))"
  by (simp add: joinTableLines_def joinTableBlock_def unlines_def comp_def)

subsection \<open>Foreign keys\<close>

text \<open>
  C5. In the entity block of any node, the foreign keys contribute, in order, one line
  \<open>  <formattedType> <fieldName> FK\<close> for each foreign key whose \<open>UserDefined\<close> flag is
  false and nothing for one whose flag is true: the loop over the foreign keys appends
  exactly these lines, the entity block is the header, the identifier and field lines,
  these lines, and the closing line, and the output of \<open>generateMermaidCode\<close> holds, after
  its first line, the entity block of each node followed by the join tables of the node.
\<close>

theorem foreign_key_lines:
  "writeForeignKeys foreignKeys builder =
     builder @ concat (map (\<lambda>foreignKey. ''  '' @ formatType (Field_Type (FK_Field foreignKey))
                              @ '' '' @ Field_Name (FK_Field foreignKey) @ '' FK\<newline>'')
                        (filter (\<lambda>foreignKey. \<not> UserDefined foreignKey) foreignKeys))
   \<and> writeEntity node builder =
       builder @ '' '' @ Node_Name node @ '' {\<newline>''
       @ unlines (idLines node) @ unlines (map fieldLine (Fields node))
       @ concat (map (\<lambda>foreignKey. ''  '' @ formatType (Field_Type (FK_Field foreignKey))
                              @ '' '' @ Field_Name (FK_Field foreignKey) @ '' FK\<newline>'')
                        (filter (\<lambda>foreignKey. \<not> UserDefined foreignKey) (ForeignKeys node)))
       @ '' }\<newline>\<newline>''
   \<and> (\<exists>relationships. generateMermaidCode graph =
         Inr (''erDiagram\<newline>''
              @ concat (map (\<lambda>node. writeEntity node [] @ writeJoinTables (Edges node) [])
                          (Nodes graph))
              @ relationships))"
proof -
  have fk: "unlines (fkLines fks) =
      concat (map (\<lambda>foreignKey. ''  '' @ formatType (Field_Type (FK_Field foreignKey))
                              @ '' '' @ Field_Name (FK_Field foreignKey) @ '' FK\<newline>'')
                        (filter (\<lambda>foreignKey. \<not> UserDefined foreignKey) fks))" for fks
    by (simp add: fkLines_def unlines_def fieldLine_def comp_def)
  have blocks: "unlines (concat (map nodeLines ns))
      = concat (map (\<lambda>node. writeEntity node [] @ writeJoinTables (Edges node) []) ns)" for ns
    by (induction ns) (simp_all add: nodeLines_def writeEntity_eq writeJoinTables_eq)
  have "generateMermaidCode graph =
         Inr (''erDiagram\<newline>''
              @ concat (map (\<lambda>node. writeEntity node [] @ writeJoinTables (Edges node) [])
                          (Nodes graph))
              @ unlines (concat (map (\<lambda>n. concat (map (edgeLines n) (Edges n))) (Nodes graph))))"
    by (simp add: generateMermaidCode_eq graphLines_def blocks)
  then have whole: "\<exists>relationships. generateMermaidCode graph =
         Inr (''erDiagram\<newline>''
              @ concat (map (\<lambda>node. writeEntity node [] @ writeJoinTables (Edges node) [])
                          (Nodes graph))
              @ relationships)"
    by blast
  have parts: "writeForeignKeys foreignKeys builder =
     builder @ concat (map (\<lambda>foreignKey. ''  '' @ formatType (Field_Type (FK_Field foreignKey))
                              @ '' '' @ Field_Name (FK_Field foreignKey) @ '' FK\<newline>'')
                        (filter (\<lambda>foreignKey. \<not> UserDefined foreignKey) foreignKeys))
   \<and> writeEntity node builder =
       builder @ '' '' @ Node_Name node @ '' {\<newline>''
       @ unlines (idLines node) @ unlines (map fieldLine (Fields node))
       @ concat (map (\<lambda>foreignKey. ''  '' @ formatType (Field_Type (FK_Field foreignKey))
                              @ '' '' @ Field_Name (FK_Field foreignKey) @ '' FK\<newline>'')
                        (filter (\<lambda>foreignKey. \<not> UserDefined foreignKey) (ForeignKeys node)))
       @ '' }\<newline>\<newline>''"
    by (simp add: writeForeignKeys_eq writeEntity_eq entityLines_def fk)
  from parts whole show ?thesis by blast
qed

theorem foreign_key_lines_witness:
  "UserDefined vetKey \<and> \<not> UserDefined ownerKey
   \<and> writeForeignKeys [vetKey, ownerKey] '' Pet {\<newline>'' = '' Pet {\<newline>  int user_pets FK\<newline>''
   \<and> writeEntity petNode ''erDiagram\<newline>''
       = ''erDiagram\<newline> Pet {\<newline>  int id PK\<newline>  string name\<newline>  int user_pets FK\<newline> }\<newline>\<newline>''"
proof -
  have f: "formatType ''int'' = ''int''" "formatType ''string'' = ''string''"
    by (simp_all add: formatType_def)
  from foreign_key_lines [of "[vetKey, ownerKey]" "'' Pet {\<newline>''" petNode]
    foreign_key_lines [of "[]" "''erDiagram\<newline>''" petNode]
  show ?thesis
    by (simp add: fixture_defs model_defs idLines_def fieldLine_def WriteString_def f)
qed

subsection \<open>Relationship lines\<close>

lemma writeEdges_append:
  "writeEdges node (es1 @ es2) builder =
     (case writeEdges node es1 builder of Inl err \<Rightarrow> Inl err | Inr b \<Rightarrow> writeEdges node es2 b)"
  by (induction es1 arbitrary: builder) (simp_all split: sum.splits)

text \<open>
  The output of \<open>generateMermaidCode\<close> around one edge: the text of the first pass, the
  relationship lines of the nodes before the node of the edge, those of the earlier edges
  of the node, what the edge itself contributes, and then the later edges and nodes.
\<close>

lemma generateMermaidCode_at_edge:
  assumes "Nodes graph = before @ node # after" and "Edges node = earlier @ edge # later"
  shows "generateMermaidCode graph =
     Inr (''erDiagram\<newline>'' @ unlines (concat (map nodeLines (Nodes graph)))
          @ unlines (concat (map (\<lambda>n. concat (map (edgeLines n) (Edges n))) before))
          @ unlines (concat (map (edgeLines node) earlier))
          @ unlines (edgeLines node edge)
          @ unlines (concat (map (edgeLines node) later))
          @ unlines (concat (map (\<lambda>n. concat (map (edgeLines n) (Edges n))) after)))"
  by (simp add: generateMermaidCode_eq graphLines_def assms)

lemma firstPass_eq:
  "writeNodes ns ''erDiagram\<newline>'' = ''erDiagram\<newline>'' @ unlines (concat (map nodeLines ns))"
  by (simp add: writeNodes_eq)

text \<open>
  C2. In the relationship pass of \<open>generateMermaidCode\<close>, a many-to-many edge, inverse or
  not, produces exactly the line
  \<open> <EntityName> |o--o{ <JoinTableName> : <EdgeName><RefSuffix>\<close>, where the suffix is \<open>-\<close>
  and the name of the counterpart edge when there is one and empty otherwise: the output
  of \<open>generateMermaidCode\<close> is the text of the first pass, the relationship lines of the
  edges that come before, this line, and the relationship lines of the edges that come
  after. The loop body appends that line and nothing else, and the pass over the edges
  of the node goes on with the builder so extended.
\<close>

theorem m2m_relationship_line:
  assumes "Edge_M2M edge"
    and "Nodes graph = before @ node # after"
    and "Edges node = earlier @ edge # later"
  shows "generateMermaidCode graph =
           Inr (writeNodes (Nodes graph) ''erDiagram\<newline>''
                @ unlines (concat (map (\<lambda>n. concat (map (edgeLines n) (Edges n))) before))
                @ unlines (concat (map (edgeLines node) earlier))
                @ '' '' @ Node_Name node @ '' |o--o{ '' @ Table (Edge_Rel edge) @ '' : ''
                @ Edge_Name edge
                @ (case Edge_Ref edge of None \<Rightarrow> [] | Some ref_Name \<Rightarrow> ''-'' @ ref_Name)
                @ ''\<newline>''
                @ unlines (concat (map (edgeLines node) later))
                @ unlines (concat (map (\<lambda>n. concat (map (edgeLines n) (Edges n))) after)))
       \<and> writeEdge node edge builder =
           Inr (builder @ '' '' @ Node_Name node @ '' |o--o{ '' @ Table (Edge_Rel edge) @ '' : ''
                  @ Edge_Name edge
                  @ (case Edge_Ref edge of None \<Rightarrow> [] | Some ref_Name \<Rightarrow> ''-'' @ ref_Name)
                  @ ''\<newline>'')
       \<and> writeEdges node (earlier @ edge # later) builder =
           (case writeEdges node earlier builder of
              Inl err \<Rightarrow> Inl err
            | Inr b \<Rightarrow> writeEdges node later
                (b @ '' '' @ Node_Name node @ '' |o--o{ '' @ Table (Edge_Rel edge) @ '' : ''
                   @ Edge_Name edge
                   @ (case Edge_Ref edge of None \<Rightarrow> [] | Some ref_Name \<Rightarrow> ''-'' @ ref_Name)
                   @ ''\<newline>''))"
proof -
  have r: "getEdgeRefName (Edge_Ref edge)
      = (case Edge_Ref edge of None \<Rightarrow> [] | Some ref_Name \<Rightarrow> ''-'' @ ref_Name)"
    by (cases "Edge_Ref edge") simp_all
  have step: "writeEdge node edge b =
           Inr (b @ '' '' @ Node_Name node @ '' |o--o{ '' @ Table (Edge_Rel edge) @ '' : ''
                  @ Edge_Name edge
                  @ (case Edge_Ref edge of None \<Rightarrow> [] | Some ref_Name \<Rightarrow> ''-'' @ ref_Name)
                  @ ''\<newline>'')" for b
    using assms(1) by (simp add: writeEdge_def WriteString_def r)
  have line: "unlines (edgeLines node edge) =
      '' '' @ Node_Name node @ '' |o--o{ '' @ Table (Edge_Rel edge) @ '' : ''
        @ Edge_Name edge
        @ (case Edge_Ref edge of None \<Rightarrow> [] | Some ref_Name \<Rightarrow> ''-'' @ ref_Name)
        @ ''\<newline>''"
    using assms(1) by (simp add: edgeLines_def r)
  have out: "generateMermaidCode graph =
           Inr (writeNodes (Nodes graph) ''erDiagram\<newline>''
                @ unlines (concat (map (\<lambda>n. concat (map (edgeLines n) (Edges n))) before))
                @ unlines (concat (map (edgeLines node) earlier))
                @ '' '' @ Node_Name node @ '' |o--o{ '' @ Table (Edge_Rel edge) @ '' : ''
                @ Edge_Name edge
                @ (case Edge_Ref edge of None \<Rightarrow> [] | Some ref_Name \<Rightarrow> ''-'' @ ref_Name)
                @ ''\<newline>''
                @ unlines (concat (map (edgeLines node) later))
                @ unlines (concat (map (\<lambda>n. concat (map (edgeLines n) (Edges n))) after)))"
    unfolding generateMermaidCode_at_edge [OF assms(2,3)] firstPass_eq line by simp
  have loop: "writeEdges node (earlier @ edge # later) builder =
           (case writeEdges node earlier builder of
              Inl err \<Rightarrow> Inl err
            | Inr b \<Rightarrow> writeEdges node later
                (b @ '' '' @ Node_Name node @ '' |o--o{ '' @ Table (Edge_Rel edge) @ '' : ''
                   @ Edge_Name edge
                   @ (case Edge_Ref edge of None \<Rightarrow> [] | Some ref_Name \<Rightarrow> ''-'' @ ref_Name)
                   @ ''\<newline>''))"
    by (simp add: step writeEdges_append split: sum.splits)
  from out step [of builder] loop show ?thesis by blast
qed

theorem m2m_relationship_line_witness:
  "Edge_M2M groupsEdge \<and> \<not> IsInverse groupsEdge
   \<and> Nodes userFirst = [] @ userNode # [groupNode, petNode]
   \<and> Edges userNode = [] @ groupsEdge # [petsEdge]
   \<and> Edge_M2M usersEdge \<and> IsInverse usersEdge
   \<and> Nodes userFirst = [userNode] @ groupNode # [petNode]
   \<and> Edges groupNode = [] @ usersEdge # []
   \<and> generateMermaidCode userFirst =
       Inr (writeNodes (Nodes userFirst) ''erDiagram\<newline>''
            @ '' User |o--o{ user_groups : groups-users\<newline>''
            @ '' User |o--o{ Pet : pets-owner\<newline>''
            @ '' Group |o--o{ user_groups : users-groups\<newline>'')
   \<and> writeEdge userNode groupsEdge ''erDiagram\<newline>''
       = Inr ''erDiagram\<newline> User |o--o{ user_groups : groups-users\<newline>''
   \<and> writeEdge groupNode usersEdge ''erDiagram\<newline>''
       = Inr ''erDiagram\<newline> Group |o--o{ user_groups : users-groups\<newline>''"
proof -
  have g: "Edge_M2M groupsEdge" "\<not> IsInverse groupsEdge" by (simp_all add: fixture_defs model_defs)
  have u: "Edge_M2M usersEdge" "IsInverse usersEdge" by (simp_all add: fixture_defs model_defs)
  have n1: "Nodes userFirst = [] @ userNode # [groupNode, petNode]" by (simp add: userFirst_def)
  have e1: "Edges userNode = [] @ groupsEdge # [petsEdge]" by (simp add: userNode_def)
  have n2: "Nodes userFirst = [userNode] @ groupNode # [petNode]" by (simp add: userFirst_def)
  have e2: "Edges groupNode = [] @ usersEdge # []" by (simp add: groupNode_def)
  have rest: "unlines (concat (map (edgeLines userNode) [petsEdge])) = '' User |o--o{ Pet : pets-owner\<newline>''"
    "unlines (concat (map (\<lambda>n. concat (map (edgeLines n) (Edges n))) [groupNode, petNode]))
       = '' Group |o--o{ user_groups : users-groups\<newline>''"
    by (simp_all add: edgeLines_def getEdgeRelationship_def fixture_defs model_defs)
  note first = m2m_relationship_line [OF g(1) n1 e1, of "''erDiagram\<newline>''"]
  note second = m2m_relationship_line [OF u(1) n2 e2, of "''erDiagram\<newline>''"]
  from first [THEN conjunct1, unfolded rest]
  have a: "generateMermaidCode userFirst =
       Inr (writeNodes (Nodes userFirst) ''erDiagram\<newline>''
            @ '' User |o--o{ user_groups : groups-users\<newline>''
            @ '' User |o--o{ Pet : pets-owner\<newline>''
            @ '' Group |o--o{ user_groups : users-groups\<newline>'')"
    by (simp add: fixture_defs)
  from first [THEN conjunct2, THEN conjunct1]
  have b: "writeEdge userNode groupsEdge ''erDiagram\<newline>''
       = Inr ''erDiagram\<newline> User |o--o{ user_groups : groups-users\<newline>''"
    by (simp add: fixture_defs)
  from second [THEN conjunct2, THEN conjunct1]
  have c: "writeEdge groupNode usersEdge ''erDiagram\<newline>''
       = Inr ''erDiagram\<newline> Group |o--o{ user_groups : users-groups\<newline>''"
    by (simp add: fixture_defs)
  note a b c
  with g u n1 e1 n2 e2 show ?thesis by blast
qed

text \<open>
  C3. In the relationship pass of \<open>generateMermaidCode\<close>, an edge that is not
  many-to-many produces no line when it is marked inverse: the output holds the
  relationship lines of the edges before it followed at once by those of the edges after
  it. When it is not marked inverse it produces exactly the line
  \<open> <EntityName> <RelationSymbol> <TargetEntityName> : <EdgeName><RefSuffix>\<close> at that place,
  with the symbol \<open>|o--o{\<close> for one-to-many, \<open>}o--o|\<close> for many-to-one and \<open>|o--o|\<close> for
  every other cardinality.
\<close>

theorem other_relationship_line:
  assumes "\<not> Edge_M2M edge"
    and "Nodes graph = before @ node # after"
    and "Edges node = earlier @ edge # later"
  shows "(IsInverse edge \<longrightarrow>
            generateMermaidCode graph =
              Inr (writeNodes (Nodes graph) ''erDiagram\<newline>''
                   @ unlines (concat (map (\<lambda>n. concat (map (edgeLines n) (Edges n))) before))
                   @ unlines (concat (map (edgeLines node) earlier))
                   @ unlines (concat (map (edgeLines node) later))
                   @ unlines (concat (map (\<lambda>n. concat (map (edgeLines n) (Edges n))) after)))
          \<and> writeEdge node edge builder = Inr builder
          \<and> writeEdges node (earlier @ edge # later) builder =
              (case writeEdges node earlier builder of
                 Inl err \<Rightarrow> Inl err | Inr b \<Rightarrow> writeEdges node later b))
       \<and> (\<not> IsInverse edge \<longrightarrow>
            generateMermaidCode graph =
              Inr (writeNodes (Nodes graph) ''erDiagram\<newline>''
                   @ unlines (concat (map (\<lambda>n. concat (map (edgeLines n) (Edges n))) before))
                   @ unlines (concat (map (edgeLines node) earlier))
                   @ '' '' @ Node_Name node @ '' ''
                   @ (case Rel_Type (Edge_Rel edge) of
                        O2M \<Rightarrow> ''|o--o{'' | M2O \<Rightarrow> ''}o--o|'' | _ \<Rightarrow> ''|o--o|'')
                   @ '' '' @ Edge_Type_Name edge @ '' : '' @ Edge_Name edge
                   @ (case Edge_Ref edge of None \<Rightarrow> [] | Some ref_Name \<Rightarrow> ''-'' @ ref_Name)
                   @ ''\<newline>''
                   @ unlines (concat (map (edgeLines node) later))
                   @ unlines (concat (map (\<lambda>n. concat (map (edgeLines n) (Edges n))) after)))
          \<and> writeEdge node edge builder =
              Inr (builder @ '' '' @ Node_Name node @ '' ''
                     @ (case Rel_Type (Edge_Rel edge) of
                          O2M \<Rightarrow> ''|o--o{'' | M2O \<Rightarrow> ''}o--o|'' | _ \<Rightarrow> ''|o--o|'')
                     @ '' '' @ Edge_Type_Name edge @ '' : '' @ Edge_Name edge
                     @ (case Edge_Ref edge of None \<Rightarrow> [] | Some ref_Name \<Rightarrow> ''-'' @ ref_Name)
                     @ ''\<newline>'')
          \<and> writeEdges node (earlier @ edge # later) builder =
              (case writeEdges node earlier builder of
                 Inl err \<Rightarrow> Inl err
               | Inr b \<Rightarrow> writeEdges node later
                   (b @ '' '' @ Node_Name node @ '' ''
                      @ (case Rel_Type (Edge_Rel edge) of
                           O2M \<Rightarrow> ''|o--o{'' | M2O \<Rightarrow> ''}o--o|'' | _ \<Rightarrow> ''|o--o|'')
                      @ '' '' @ Edge_Type_Name edge @ '' : '' @ Edge_Name edge
                      @ (case Edge_Ref edge of None \<Rightarrow> [] | Some ref_Name \<Rightarrow> ''-'' @ ref_Name)
                      @ ''\<newline>'')))"
proof -
  have r: "getEdgeRefName (Edge_Ref edge)
      = (case Edge_Ref edge of None \<Rightarrow> [] | Some ref_Name \<Rightarrow> ''-'' @ ref_Name)"
    by (cases "Edge_Ref edge") simp_all
  have sym: "getEdgeRelationship edge
      = (case Rel_Type (Edge_Rel edge) of O2M \<Rightarrow> ''|o--o{'' | M2O \<Rightarrow> ''}o--o|'' | _ \<Rightarrow> ''|o--o|'')"
    using assms(1)
    by (cases "Rel_Type (Edge_Rel edge)")
       (simp_all add: getEdgeRelationship_def Edge_O2M_def Edge_M2O_def Edge_M2M_def)
  have inv: "writeEdge node edge b = Inr b" if "IsInverse edge" for b
    using assms(1) that by (simp add: writeEdge_def)
  have fwd: "writeEdge node edge b =
              Inr (b @ '' '' @ Node_Name node @ '' ''
                     @ (case Rel_Type (Edge_Rel edge) of
                          O2M \<Rightarrow> ''|o--o{'' | M2O \<Rightarrow> ''}o--o|'' | _ \<Rightarrow> ''|o--o|'')
                     @ '' '' @ Edge_Type_Name edge @ '' : '' @ Edge_Name edge
                     @ (case Edge_Ref edge of None \<Rightarrow> [] | Some ref_Name \<Rightarrow> ''-'' @ ref_Name)
                     @ ''\<newline>'')" if "\<not> IsInverse edge" for b
    using assms(1) that by (simp add: writeEdge_def WriteString_def r sym)
  have line_inv: "unlines (edgeLines node edge) = []" if "IsInverse edge"
    using assms(1) that by (simp add: edgeLines_def)
  have line_fwd: "unlines (edgeLines node edge) =
      '' '' @ Node_Name node @ '' ''
        @ (case Rel_Type (Edge_Rel edge) of
             O2M \<Rightarrow> ''|o--o{'' | M2O \<Rightarrow> ''}o--o|'' | _ \<Rightarrow> ''|o--o|'')
        @ '' '' @ Edge_Type_Name edge @ '' : '' @ Edge_Name edge
        @ (case Edge_Ref edge of None \<Rightarrow> [] | Some ref_Name \<Rightarrow> ''-'' @ ref_Name)
        @ ''\<newline>''" if "\<not> IsInverse edge"
    using assms(1) that by (simp add: edgeLines_def r sym)
  note whole = generateMermaidCode_at_edge [OF assms(2,3)]
  show ?thesis
  proof (cases "IsInverse edge")
    case True
    have "generateMermaidCode graph =
              Inr (writeNodes (Nodes graph) ''erDiagram\<newline>''
                   @ unlines (concat (map (\<lambda>n. concat (map (edgeLines n) (Edges n))) before))
                   @ unlines (concat (map (edgeLines node) earlier))
                   @ unlines (concat (map (edgeLines node) later))
                   @ unlines (concat (map (\<lambda>n. concat (map (edgeLines n) (Edges n))) after)))"
      unfolding whole firstPass_eq line_inv [OF True] by simp
    with True show ?thesis by (simp add: inv writeEdges_append split: sum.splits)
  next
    case False
    have "generateMermaidCode graph =
              Inr (writeNodes (Nodes graph) ''erDiagram\<newline>''
                   @ unlines (concat (map (\<lambda>n. concat (map (edgeLines n) (Edges n))) before))
                   @ unlines (concat (map (edgeLines node) earlier))
                   @ '' '' @ Node_Name node @ '' ''
                   @ (case Rel_Type (Edge_Rel edge) of
                        O2M \<Rightarrow> ''|o--o{'' | M2O \<Rightarrow> ''}o--o|'' | _ \<Rightarrow> ''|o--o|'')
                   @ '' '' @ Edge_Type_Name edge @ '' : '' @ Edge_Name edge
                   @ (case Edge_Ref edge of None \<Rightarrow> [] | Some ref_Name \<Rightarrow> ''-'' @ ref_Name)
                   @ ''\<newline>''
                   @ unlines (concat (map (edgeLines node) later))
                   @ unlines (concat (map (\<lambda>n. concat (map (edgeLines n) (Edges n))) after)))"
      unfolding whole firstPass_eq line_fwd [OF False] by simp
    with False show ?thesis by (simp add: fwd writeEdges_append split: sum.splits)
  qed
qed

theorem other_relationship_line_witness:
  "\<not> Edge_M2M ownerEdge \<and> IsInverse ownerEdge
   \<and> Nodes userFirst = [userNode, groupNode] @ petNode # []
   \<and> Edges petNode = [] @ ownerEdge # []
   \<and> \<not> Edge_M2M petsEdge \<and> \<not> IsInverse petsEdge
   \<and> Nodes userFirst = [] @ userNode # [groupNode, petNode]
   \<and> Edges userNode = [groupsEdge] @ petsEdge # []
   \<and> generateMermaidCode userFirst =
       Inr (writeNodes (Nodes userFirst) ''erDiagram\<newline>''
            @ '' User |o--o{ user_groups : groups-users\<newline>''
            @ '' User |o--o{ Pet : pets-owner\<newline>''
            @ '' Group |o--o{ user_groups : users-groups\<newline>'')
   \<and> writeEdge petNode ownerEdge ''erDiagram\<newline>'' = Inr ''erDiagram\<newline>''
   \<and> writeEdge userNode petsEdge ''erDiagram\<newline>''
       = Inr ''erDiagram\<newline> User |o--o{ Pet : pets-owner\<newline>''
   \<and> \<not> Edge_M2M cardEdge \<and> \<not> IsInverse cardEdge
   \<and> Nodes \<lparr>Nodes = [userNode\<lparr>Edges := [cardEdge]\<rparr>]\<rparr> = [] @ userNode\<lparr>Edges := [cardEdge]\<rparr> # []
   \<and> Edges (userNode\<lparr>Edges := [cardEdge]\<rparr>) = [] @ cardEdge # []
   \<and> generateMermaidCode \<lparr>Nodes = [userNode\<lparr>Edges := [cardEdge]\<rparr>]\<rparr> =
       Inr (writeNodes [userNode\<lparr>Edges := [cardEdge]\<rparr>] ''erDiagram\<newline>''
            @ '' User |o--o| Card : card\<newline>'')"
proof -
  have o: "\<not> Edge_M2M ownerEdge" "IsInverse ownerEdge" by (simp_all add: fixture_defs model_defs)
  have p: "\<not> Edge_M2M petsEdge" "\<not> IsInverse petsEdge" by (simp_all add: fixture_defs model_defs)
  have c: "\<not> Edge_M2M cardEdge" "\<not> IsInverse cardEdge" by (simp_all add: fixture_defs model_defs)
  have n1: "Nodes userFirst = [userNode, groupNode] @ petNode # []" by (simp add: userFirst_def)
  have e1: "Edges petNode = [] @ ownerEdge # []" by (simp add: petNode_def)
  have n2: "Nodes userFirst = [] @ userNode # [groupNode, petNode]" by (simp add: userFirst_def)
  have e2: "Edges userNode = [groupsEdge] @ petsEdge # []" by (simp add: userNode_def)
  have e3: "Edges (userNode\<lparr>Edges := [cardEdge]\<rparr>) = [] @ cardEdge # []" by simp
  have rest: "unlines (concat (map (edgeLines userNode) [groupsEdge]))
       = '' User |o--o{ user_groups : groups-users\<newline>''"
    "unlines (concat (map (\<lambda>n. concat (map (edgeLines n) (Edges n))) [groupNode, petNode]))
       = '' Group |o--o{ user_groups : users-groups\<newline>''"
    by (simp_all add: edgeLines_def getEdgeRelationship_def fixture_defs model_defs)
  note inverse = other_relationship_line [OF o(1) n1 e1, of "''erDiagram\<newline>''"]
  note forward = other_relationship_line [OF p(1) n2 e2, of "''erDiagram\<newline>''"]
  from forward [THEN conjunct2, rule_format, OF p(2), THEN conjunct1, unfolded rest]
  have a: "generateMermaidCode userFirst =
       Inr (writeNodes (Nodes userFirst) ''erDiagram\<newline>''
            @ '' User |o--o{ user_groups : groups-users\<newline>''
            @ '' User |o--o{ Pet : pets-owner\<newline>''
            @ '' Group |o--o{ user_groups : users-groups\<newline>'')"
    by (simp add: fixture_defs)
  from inverse [THEN conjunct1, rule_format, OF o(2), THEN conjunct2, THEN conjunct1]
  have b: "writeEdge petNode ownerEdge ''erDiagram\<newline>'' = Inr ''erDiagram\<newline>''" .
  from forward [THEN conjunct2, rule_format, OF p(2), THEN conjunct2, THEN conjunct1]
  have d: "writeEdge userNode petsEdge ''erDiagram\<newline>''
       = Inr ''erDiagram\<newline> User |o--o{ Pet : pets-owner\<newline>''"
    by (simp add: fixture_defs)
  have n3: "Nodes \<lparr>Nodes = [userNode\<lparr>Edges := [cardEdge]\<rparr>]\<rparr> = [] @ userNode\<lparr>Edges := [cardEdge]\<rparr> # []"
    by simp
  note single = other_relationship_line [OF c(1) n3 e3, of "''erDiagram\<newline>''"]
  from single [THEN conjunct2, rule_format, OF c(2), THEN conjunct1]
  have e: "generateMermaidCode \<lparr>Nodes = [userNode\<lparr>Edges := [cardEdge]\<rparr>]\<rparr> =
       Inr (writeNodes [userNode\<lparr>Edges := [cardEdge]\<rparr>] ''erDiagram\<newline>''
            @ '' User |o--o| Card : card\<newline>'')"
    by (simp add: fixture_defs)
  from o p c n1 e1 n2 e2 n3 e3 a b d e show ?thesis by blast
qed

subsection \<open>Counting a line in the output\<close>

text \<open>
  A pattern of one line (free of newlines, followed by a newline) starts in a text of
  lines as often as it is the end of a line.
\<close>

text \<open>\<open>occurrences\<close> counts the positions at which the pattern occurs.\<close>

lemma occurrences_positions:
  "occurrences pat s = length (filter (occurs_at s pat) [0..<Suc (length s)])"
proof (induction s)
  case Nil
  then show ?case by (simp add: occurs_at_def)
next
  case (Cons c s)
  have "[0..<Suc (length (c # s))] = 0 # map Suc [0..<Suc (length s)]"
    by (simp add: upt_conv_Cons map_Suc_upt del: upt_Suc)
  moreover have "occurs_at (c # s) pat 0 \<longleftrightarrow> prefix pat (c # s)"
    by (simp add: occurs_at_def)
  moreover have "occurs_at (c # s) pat (Suc j) \<longleftrightarrow> occurs_at s pat j" for j
    by (simp add: occurs_at_def)
  ultimately show ?case using Cons
    by (simp add: filter_map comp_def del: upt_Suc)
qed

lemma prefix_line_iff:
  "NL \<notin> set h \<Longrightarrow> NL \<notin> set l \<Longrightarrow> prefix (h @ [NL]) (l @ NL # rest) \<longleftrightarrow> h = l"
proof (induction h arbitrary: l)
  case Nil
  then show ?case by (cases l) auto
next
  case (Cons a h)
  then show ?case by (cases l) auto
qed

lemma occurrences_line:
  assumes "NL \<notin> set h" and "NL \<notin> set l"
  shows "occurrences (h @ [NL]) (l @ NL # rest)
       = (if suffix h l then 1 else 0) + occurrences (h @ [NL]) rest"
  using assms(2)
proof (induction l)
  case Nil
  have "prefix (h @ [NL]) (NL # rest) \<longleftrightarrow> h = []"
    using prefix_line_iff [OF assms(1), of "[]" rest] by simp
  then show ?case by simp
next
  case (Cons c l)
  then have nl: "NL \<notin> set l" and cl: "NL \<notin> set (c # l)" by simp_all
  have p: "prefix (h @ [NL]) ((c # l) @ NL # rest) \<longleftrightarrow> h = c # l"
    using prefix_line_iff [OF assms(1) cl] .
  have excl: "h = c # l \<Longrightarrow> \<not> suffix h l"
    using suffix_length_le by fastforce
  have s: "suffix h (c # l) \<longleftrightarrow> h = c # l \<or> suffix h l"
    by (simp add: suffix_Cons)
  show ?case
    using Cons.IH [OF nl] p s excl by auto
qed

lemma occurrences_unlines:
  assumes "NL \<notin> set h"
  shows "\<forall>l\<in>set ls. NL \<notin> set l \<Longrightarrow>
    occurrences (h @ [NL]) (unlines ls) = length (filter (suffix h) ls)"
proof (induction ls)
  case Nil
  then show ?case by simp
next
  case (Cons l ls)
  then have "NL \<notin> set l" by simp
  from occurrences_line [OF assms this, of "unlines ls"] Cons show ?case by simp
qed

lemma occurrences_prefix_le: "occurrences (p @ q) s \<le> occurrences p s"
proof (induction s)
  case Nil
  then show ?case by simp
next
  case (Cons c s)
  have "prefix (p @ q) (c # s) \<Longrightarrow> prefix p (c # s)"
    using append_prefixD by blast
  with Cons show ?case by auto
qed

lemma occurrences_ge1: "1 \<le> occurrences p (u @ p @ v)"
proof (induction u)
  case Nil
  show ?case
  proof (cases "p @ v")
    case Nil
    then show ?thesis by simp
  next
    case (Cons c s)
    have "prefix p (p @ v)" by simp
    with Cons have "prefix p (c # s)" by simp
    with Cons show ?thesis by simp
  qed
next
  case (Cons a u)
  then show ?case by simp
qed


lemma not_suffix_brace:
  "l = [] \<or> last l \<noteq> CHR ''{'' \<Longrightarrow> \<not> suffix (x @ ''{'') l"
  by (auto simp: suffix_def)

lemma suffix_header_iff:
  assumes "CHR '' '' \<notin> set N"
  shows "suffix ('' '' @ T @ '' {'') ('' '' @ N @ '' {'') \<longleftrightarrow> T = N"
proof -
  have "suffix ((CHR '' '' # T) @ '' {'') ((CHR '' '' # N) @ '' {'')
      \<longleftrightarrow> suffix (CHR '' '' # T) (CHR '' '' # N)"
    by (rule same_suffix_suffix)
  also have "\<dots> \<longleftrightarrow> T = N"
  proof
    assume "suffix (CHR '' '' # T) (CHR '' '' # N)"
    then have "CHR '' '' # T = CHR '' '' # N \<or> suffix (CHR '' '' # T) N"
      by (simp add: suffix_Cons)
    moreover have "\<not> suffix (CHR '' '' # T) N"
      using assms set_mono_suffix by fastforce
    ultimately show "T = N" by simp
  next
    assume "T = N" then show "suffix (CHR '' '' # T) (CHR '' '' # N)" by simp
  qed
  finally show ?thesis by simp
qed

lemma NL_formatType: "NL \<notin> set s \<Longrightarrow> NL \<notin> set (formatType s)"
proof -
  have r: "NL \<notin> set s \<Longrightarrow> NL \<notin> set (ReplaceAll s (CHR ''.'') ''-'')" for s
    by (induction s) auto
  assume "NL \<notin> set s"
  with r show ?thesis by (simp add: formatType_def)
qed

lemma hdr_brace: "hdr T = ('' '' @ T @ '' '') @ ''{''"
  by (simp add: hdr_def)

lemma last_not_in: "c \<notin> set s \<Longrightarrow> s \<noteq> [] \<Longrightarrow> last s \<noteq> c"
  using last_in_set by fastforce

lemma no_hdr_suffix: "l = [] \<or> last l \<noteq> CHR ''{'' \<Longrightarrow> \<not> suffix (hdr T) l"
  unfolding hdr_brace by (rule not_suffix_brace)

lemma last_fieldLine: "field_ok f \<Longrightarrow> last (fieldLine f) \<noteq> CHR ''{''"
  by (cases "Field_Name f = []") (auto simp: fieldLine_def field_ok_def ident_def last_not_in)

lemma filter_entityLines:
  assumes "node_ok n" and "Node_Name n \<noteq> T"
  shows "filter (suffix (hdr T)) (entityLines n) = []"
proof -
  have h: "\<not> suffix (hdr T) ('' '' @ Node_Name n @ '' {'')"
    using assms suffix_header_iff [of "Node_Name n" T]
    by (simp add: hdr_def node_ok_def ident_def)
  have i: "\<not> suffix (hdr T) l" if "l \<in> set (idLines n)" for l
  proof -
    from that have "l = [] \<or> last l \<noteq> CHR ''{''"
      by (cases "HasOneFieldID n"; cases "Node_ID n") (auto simp: idLines_def)
    then show ?thesis by (rule no_hdr_suffix)
  qed
  have f: "\<not> suffix (hdr T) l" if "l \<in> set (map fieldLine (Fields n))" for l
  proof -
    from that obtain fd where "fd \<in> set (Fields n)" "l = fieldLine fd" by auto
    with assms(1) have "l = [] \<or> last l \<noteq> CHR ''{''"
      using last_fieldLine by (auto simp: node_ok_def list_all_iff)
    then show ?thesis by (rule no_hdr_suffix)
  qed
  have k: "\<not> suffix (hdr T) l" if "l \<in> set (fkLines (ForeignKeys n))" for l
  proof -
    from that have "l = [] \<or> last l \<noteq> CHR ''{''"
      by (auto simp: fkLines_def)
    then show ?thesis by (rule no_hdr_suffix)
  qed
  have c: "\<not> suffix (hdr T) '' }''" by (rule no_hdr_suffix) simp
  have d: "\<not> suffix (hdr T) []" by (rule no_hdr_suffix) simp
  have "\<not> suffix (hdr T) l" if "l \<in> set (entityLines n)" for l
    using that h i f k c d unfolding entityLines_def by auto
  then show ?thesis by (simp add: filter_empty_conv)
qed

lemma filter_joinTableLines:
  assumes "edge_ok e"
  shows "length (filter (suffix (hdr T)) (joinTableLines e))
       = (if Edge_M2M e \<and> \<not> IsInverse e \<and> Table (Edge_Rel e) = T then 1 else 0)"
proof -
  have h: "suffix (hdr T) ('' '' @ Table (Edge_Rel e) @ '' {'') \<longleftrightarrow> Table (Edge_Rel e) = T"
    using assms suffix_header_iff [of "Table (Edge_Rel e)" T]
    by (auto simp: hdr_def edge_ok_def ident_def)
  have "\<not> suffix (hdr T) l"
    if "l \<in> set (map (\<lambda>c. ''  int '' @ c @ '' PK,FK'') (Columns (Edge_Rel e)))" for l
  proof -
    from that have "l = [] \<or> last l \<noteq> CHR ''{''" by auto
    then show ?thesis by (rule no_hdr_suffix)
  qed
  then have c: "filter (suffix (hdr T))
      (map (\<lambda>c. ''  int '' @ c @ '' PK,FK'') (Columns (Edge_Rel e))) = []"
    by (simp only: filter_empty_conv) blast
  have z: "\<not> suffix (hdr T) '' }''" by (rule no_hdr_suffix) simp
  have d: "\<not> suffix (hdr T) []" by (rule no_hdr_suffix) simp
  show ?thesis
  proof (cases "Edge_M2M e \<and> \<not> IsInverse e")
    case True
    then have "filter (suffix (hdr T)) (joinTableLines e)
        = (if Table (Edge_Rel e) = T then ['' '' @ Table (Edge_Rel e) @ '' {''] else [])"
      unfolding joinTableLines_def using h c z d by (simp del: append.simps)
    with True show ?thesis by simp
  next
    case False
    then show ?thesis by (auto simp: joinTableLines_def)
  qed
qed

lemma last_refName:
  "ident name \<Longrightarrow> (case r of None \<Rightarrow> True | Some x \<Rightarrow> ident x) \<Longrightarrow>
   last (pre @ '' : '' @ name @ getEdgeRefName r) \<noteq> CHR ''{''"
proof (cases r)
  case None
  assume "ident name"
  with None show ?thesis by (cases "name = []") (auto simp: ident_def last_not_in)
next
  case (Some x)
  assume "case r of None \<Rightarrow> True | Some x \<Rightarrow> ident x"
  with Some show ?thesis by (cases "x = []") (auto simp: ident_def last_not_in)
qed

lemma filter_edgeLines:
  assumes "edge_ok e"
  shows "filter (suffix (hdr T)) (edgeLines n e) = []"
proof -
  from assms have a: "ident (Edge_Name e)" "case Edge_Ref e of None \<Rightarrow> True | Some x \<Rightarrow> ident x"
    by (simp_all add: edge_ok_def)
  have l1: "last (('' '' @ Node_Name n @ '' |o--o{ '' @ Table (Edge_Rel e)) @ '' : '' @ Edge_Name e
              @ getEdgeRefName (Edge_Ref e)) \<noteq> CHR ''{''"
    using a by (rule last_refName)
  have l2: "last (('' '' @ Node_Name n @ '' '' @ getEdgeRelationship e @ '' '' @ Edge_Type_Name e)
              @ '' : '' @ Edge_Name e @ getEdgeRefName (Edge_Ref e)) \<noteq> CHR ''{''"
    using a by (rule last_refName)
  have "\<not> suffix (hdr T) l" if "l \<in> set (edgeLines n e)" for l
  proof -
    from that have "l = ('' '' @ Node_Name n @ '' |o--o{ '' @ Table (Edge_Rel e)) @ '' : ''
          @ Edge_Name e @ getEdgeRefName (Edge_Ref e)
       \<or> l = ('' '' @ Node_Name n @ '' '' @ getEdgeRelationship e @ '' '' @ Edge_Type_Name e)
          @ '' : '' @ Edge_Name e @ getEdgeRefName (Edge_Ref e)"
      by (auto simp: edgeLines_def split: if_splits)
    with l1 l2 have "l = [] \<or> last l \<noteq> CHR ''{''" by metis
    then show ?thesis by (rule no_hdr_suffix)
  qed
  then show ?thesis by (simp only: filter_empty_conv) blast
qed

lemma count_joinTables:
  "\<forall>e\<in>set es. edge_ok e \<Longrightarrow>
   length (filter (suffix (hdr T)) (concat (map joinTableLines es)))
     = length (filter (emitsTable T) es)"
  by (induction es) (simp_all add: filter_joinTableLines emitsTable_def)

lemma count_nodeLines:
  assumes "node_ok n" and "Node_Name n \<noteq> T"
  shows "length (filter (suffix (hdr T)) (nodeLines n)) = length (filter (emitsTable T) (Edges n))"
proof -
  from assms(1) have "\<forall>e\<in>set (Edges n). edge_ok e" by (simp add: node_ok_def list_all_iff)
  then show ?thesis
    by (simp add: nodeLines_def filter_entityLines [OF assms] count_joinTables)
qed

lemma count_nodes:
  "\<forall>n\<in>set ns. node_ok n \<and> Node_Name n \<noteq> T \<Longrightarrow>
   length (filter (suffix (hdr T)) (concat (map nodeLines ns)))
     = length (filter (emitsTable T) (concat (map Edges ns)))"
  by (induction ns) (simp_all add: count_nodeLines)

lemma count_edgeLines:
  "\<forall>e\<in>set es. edge_ok e \<Longrightarrow>
   filter (suffix (hdr T)) (concat (map (edgeLines n) es)) = []"
  by (induction es) (simp_all add: filter_edgeLines)

lemma count_relationships:
  "\<forall>n\<in>set ns. node_ok n \<Longrightarrow>
   filter (suffix (hdr T)) (concat (map (\<lambda>n. concat (map (edgeLines n) (Edges n))) ns)) = []"
proof (induction ns)
  case Nil
  then show ?case by simp
next
  case (Cons n ns)
  then have "\<forall>e\<in>set (Edges n). edge_ok e" by (simp add: node_ok_def list_all_iff)
  with Cons show ?case by (simp add: count_edgeLines)
qed

lemma count_graphLines:
  assumes "graph_ok g" and "T \<notin> set (map Node_Name (Nodes g))"
  shows "length (filter (suffix (hdr T)) (graphLines g))
       = length (filter (emitsTable T) (allEdges g))"
proof -
  from assms have ok: "\<forall>n\<in>set (Nodes g). node_ok n \<and> Node_Name n \<noteq> T"
    by (auto simp: graph_ok_def list_all_iff)
  have e: "\<not> suffix (hdr T) ''erDiagram''" by (rule no_hdr_suffix) simp
  show ?thesis
    unfolding graphLines_def allEdges_def
    using e count_nodes [OF ok] count_relationships [of "Nodes g" T] ok by simp
qed

subsection \<open>No line holds a newline\<close>

lemma NL_fieldLine: "field_ok f \<Longrightarrow> NL \<notin> set (fieldLine f)"
  by (simp add: fieldLine_def field_ok_def ident_def NL_formatType)

lemma NL_entityLines:
  assumes "node_ok n" shows "\<forall>l\<in>set (entityLines n). NL \<notin> set l"
proof -
  have i: "\<forall>l\<in>set (idLines n). NL \<notin> set l"
    using assms NL_fieldLine
    by (cases "HasOneFieldID n"; cases "Node_ID n") (auto simp: idLines_def node_ok_def)
  have f: "\<forall>l\<in>set (map fieldLine (Fields n)). NL \<notin> set l"
    using assms NL_fieldLine by (auto simp: node_ok_def list_all_iff)
  have k: "\<forall>l\<in>set (fkLines (ForeignKeys n)). NL \<notin> set l"
    using assms NL_fieldLine by (auto simp: fkLines_def node_ok_def list_all_iff)
  have h: "NL \<notin> set ('' '' @ Node_Name n @ '' {'')"
    using assms by (simp add: node_ok_def ident_def)
  show ?thesis unfolding entityLines_def using i f k h by auto
qed

lemma NL_joinTableLines:
  assumes "edge_ok e" shows "\<forall>l\<in>set (joinTableLines e). NL \<notin> set l"
  using assms by (auto simp: joinTableLines_def edge_ok_def ident_def list_all_iff)

lemma NL_refName: "(case r of None \<Rightarrow> True | Some x \<Rightarrow> ident x) \<Longrightarrow> NL \<notin> set (getEdgeRefName r)"
  by (cases r) (auto simp: ident_def)

lemma NL_getEdgeRelationship: "NL \<notin> set (getEdgeRelationship e)"
  by (simp add: getEdgeRelationship_def)

lemma NL_edgeLines:
  assumes "ident (Node_Name n)" and "edge_ok e" shows "\<forall>l\<in>set (edgeLines n e). NL \<notin> set l"
  using assms NL_refName [of "Edge_Ref e"] NL_getEdgeRelationship [of e]
  by (auto simp: edgeLines_def edge_ok_def ident_def)

lemma NL_graphLines:
  assumes "graph_ok g" shows "\<forall>l\<in>set (graphLines g). NL \<notin> set l"
proof
  fix l assume "l \<in> set (graphLines g)"
  then consider "l = ''erDiagram''"
    | n where "n \<in> set (Nodes g)" "l \<in> set (entityLines n)"
    | n e where "n \<in> set (Nodes g)" "e \<in> set (Edges n)" "l \<in> set (joinTableLines e)"
    | n e where "n \<in> set (Nodes g)" "e \<in> set (Edges n)" "l \<in> set (edgeLines n e)"
    by (auto simp: graphLines_def nodeLines_def)
  then show "NL \<notin> set l"
  proof cases
    case 1
    then show ?thesis by simp
  next
    case 2
    with assms have "node_ok n" by (simp add: graph_ok_def list_all_iff)
    with 2 NL_entityLines show ?thesis by blast
  next
    case 3
    with assms have "edge_ok e" by (auto simp: graph_ok_def node_ok_def list_all_iff)
    with 3 NL_joinTableLines show ?thesis by blast
  next
    case 4
    with assms have "edge_ok e" "ident (Node_Name n)"
      by (auto simp: graph_ok_def node_ok_def list_all_iff)
    with 4 NL_edgeLines show ?thesis by blast
  qed
qed

subsection \<open>The block is in the output\<close>

lemma joinTableLines_in_graphLines:
  assumes "e \<in> set (allEdges g)"
  shows "\<exists>xs ys. graphLines g = xs @ joinTableLines e @ ys"
proof -
  from assms obtain n where n: "n \<in> set (Nodes g)" and e: "e \<in> set (Edges n)"
    by (auto simp: allEdges_def)
  from e obtain es1 es2 where "Edges n = es1 @ e # es2" by (meson split_list)
  then have "nodeLines n = (entityLines n @ concat (map joinTableLines es1))
      @ joinTableLines e @ concat (map joinTableLines es2)"
    by (simp add: nodeLines_def)
  then obtain a b where nl: "nodeLines n = a @ joinTableLines e @ b" by blast
  from n obtain ns1 ns2 where "Nodes g = ns1 @ n # ns2" by (meson split_list)
  then have "graphLines g = (''erDiagram'' # concat (map nodeLines ns1) @ a)
      @ joinTableLines e
      @ (b @ concat (map nodeLines ns2)
           @ concat (map (\<lambda>n. concat (map (edgeLines n) (Edges n))) (Nodes g)))"
    by (simp add: graphLines_def nl)
  then show ?thesis by blast
qed

lemma joinTableBlock_hdr:
  "joinTableBlock T cols = (hdr T @ [NL])
     @ concat (map (\<lambda>column. ''  int '' @ column @ '' PK,FK\<newline>'') cols) @ '' }\<newline>\<newline>''"
  by (simp add: joinTableBlock_def hdr_def)

subsection \<open>The join-table block\<close>

text \<open>
  C1 (as amended). For every schema graph whose names are identifiers (no space, newline
  or opening brace; the texts of types without newline), in which the relation table \<open>T\<close>
  is not the name of an entity and exactly one many-to-many edge with relation table \<open>T\<close>
  is not marked inverse, \<open>generateMermaidCode\<close> returns a text in which the join-table
  block of \<open>T\<close> (header line, one line for each relation column of that edge, closing
  line and empty line) appears exactly once. Nothing is assumed about where the edges
  stand in the graph, so the order of the two edges of a pair does not matter.
\<close>

theorem join_table_block_once:
  assumes ok: "graph_ok graph"
    and table: "T \<notin> set (map Node_Name (Nodes graph))"
    and one: "filter (\<lambda>e. Edge_M2M e \<and> \<not> IsInverse e \<and> Table (Edge_Rel e) = T) (allEdges graph) = [edge]"
  shows "\<exists>out. generateMermaidCode graph = Inr out
           \<and> occurrences (joinTableBlock T (Columns (Edge_Rel edge))) out = 1"
proof -
  let ?B = "joinTableBlock T (Columns (Edge_Rel edge))"
  let ?out = "unlines (graphLines graph)"
  have f: "filter (emitsTable T) (allEdges graph) = [edge]"
    using one by (simp add: emitsTable_def [abs_def])
  then have "edge \<in> set (filter (emitsTable T) (allEdges graph))" by simp
  then have mem: "edge \<in> set (allEdges graph)" and em: "emitsTable T edge" by simp_all
  from em have m: "Edge_M2M edge" and i: "\<not> IsInverse edge" and t: "Table (Edge_Rel edge) = T"
    by (simp_all add: emitsTable_def)
  from ok mem have TNL: "NL \<notin> set (hdr T)"
    using t by (auto simp: allEdges_def graph_ok_def node_ok_def edge_ok_def ident_def
        list_all_iff hdr_def)
  have "occurrences (hdr T @ [NL]) ?out = length (filter (suffix (hdr T)) (graphLines graph))"
    using occurrences_unlines [OF TNL] NL_graphLines [OF ok] by blast
  also have "\<dots> = 1" using count_graphLines [OF ok table] f by simp
  finally have "occurrences (hdr T @ [NL]) ?out = 1" .
  then have le: "occurrences ?B ?out \<le> 1"
    using occurrences_prefix_le [of "hdr T @ [NL]" _ ?out]
    unfolding joinTableBlock_hdr by metis
  from joinTableLines_in_graphLines [OF mem]
  obtain xs ys where "graphLines graph = xs @ joinTableLines edge @ ys" by blast
  then have "?out = unlines xs @ ?B @ unlines ys"
    using joinTableBlock_unlines [OF m i] t by simp
  then have "1 \<le> occurrences ?B ?out" using occurrences_ge1 by metis
  with le have "occurrences ?B ?out = 1" by linarith
  then show ?thesis using generateMermaidCode_eq by blast
qed

theorem join_table_block_once_witness:
  "graph_ok userFirst
   \<and> ''user_groups'' \<notin> set (map Node_Name (Nodes userFirst))
   \<and> filter (\<lambda>e. Edge_M2M e \<and> \<not> IsInverse e \<and> Table (Edge_Rel e) = ''user_groups'')
        (allEdges userFirst) = [groupsEdge]
   \<and> (\<exists>out. generateMermaidCode userFirst = Inr out
         \<and> occurrences (joinTableBlock ''user_groups'' [''user_id'', ''group_id'']) out = 1)
   \<and> graph_ok groupFirst
   \<and> ''user_groups'' \<notin> set (map Node_Name (Nodes groupFirst))
   \<and> filter (\<lambda>e. Edge_M2M e \<and> \<not> IsInverse e \<and> Table (Edge_Rel e) = ''user_groups'')
        (allEdges groupFirst) = [groupsEdge]
   \<and> (\<exists>out. generateMermaidCode groupFirst = Inr out
         \<and> occurrences (joinTableBlock ''user_groups'' [''user_id'', ''group_id'']) out = 1)"
proof -
  have a1: "graph_ok userFirst" by (simp add: fixture_defs ok_defs)
  have a2: "''user_groups'' \<notin> set (map Node_Name (Nodes userFirst))"
    by (simp add: fixture_defs)
  have a3: "filter (\<lambda>e. Edge_M2M e \<and> \<not> IsInverse e \<and> Table (Edge_Rel e) = ''user_groups'')
        (allEdges userFirst) = [groupsEdge]"
    by (simp add: fixture_defs model_defs)
  have b1: "graph_ok groupFirst" by (simp add: fixture_defs ok_defs)
  have b2: "''user_groups'' \<notin> set (map Node_Name (Nodes groupFirst))"
    by (simp add: fixture_defs)
  have b3: "filter (\<lambda>e. Edge_M2M e \<and> \<not> IsInverse e \<and> Table (Edge_Rel e) = ''user_groups'')
        (allEdges groupFirst) = [groupsEdge]"
    by (simp add: fixture_defs model_defs)
  have c: "Columns (Edge_Rel groupsEdge) = [''user_id'', ''group_id'']"
    by (simp add: groupsEdge_def userGroups_def)
  from join_table_block_once [OF a1 a2 a3] join_table_block_once [OF b1 b2 b3]
  show ?thesis unfolding c using a1 a2 a3 b1 b2 b3 by blast
qed

text \<open>
  With only the assumption that one direction of each many-to-many pair is marked
  inverse, the block can appear twice. In \<open>sharedTable\<close> the four many-to-many edges form
  two pairs, each with one inverse direction, and both pairs name \<open>user_groups\<close>. In
  \<open>lookalike\<close> there is one pair, and the block of the entity named \<open>user_groups\<close> reads
  like the block of the join table.
\<close>

theorem join_table_block_once_counterexample:
  "filter Edge_M2M (allEdges sharedTable) = [groupsEdge, adminOfEdge, usersEdge, adminsEdge]
   \<and> filter IsInverse [groupsEdge, usersEdge] = [usersEdge]
   \<and> filter IsInverse [adminOfEdge, adminsEdge] = [adminsEdge]
   \<and> generateMermaidCode sharedTable = Inr
        ''erDiagram\<newline> User {\<newline>  int id PK\<newline> }\<newline>\<newline> user_groups {\<newline>  int user_id PK,FK\<newline>  int group_id PK,FK\<newline> }\<newline>\<newline> user_groups {\<newline>  int user_id PK,FK\<newline>  int group_id PK,FK\<newline> }\<newline>\<newline> Group {\<newline>  int id PK\<newline> }\<newline>\<newline> User |o--o{ user_groups : groups-users\<newline> User |o--o{ user_groups : admin_of-admins\<newline> Group |o--o{ user_groups : users-groups\<newline> Group |o--o{ user_groups : admins-admin_of\<newline>''
   \<and> occurrences (joinTableBlock ''user_groups'' [''user_id'', ''group_id''])
        ''erDiagram\<newline> User {\<newline>  int id PK\<newline> }\<newline>\<newline> user_groups {\<newline>  int user_id PK,FK\<newline>  int group_id PK,FK\<newline> }\<newline>\<newline> user_groups {\<newline>  int user_id PK,FK\<newline>  int group_id PK,FK\<newline> }\<newline>\<newline> Group {\<newline>  int id PK\<newline> }\<newline>\<newline> User |o--o{ user_groups : groups-users\<newline> User |o--o{ user_groups : admin_of-admins\<newline> Group |o--o{ user_groups : users-groups\<newline> Group |o--o{ user_groups : admins-admin_of\<newline>'' = 2
   \<and> filter Edge_M2M (allEdges lookalike) = [groupsEdge, usersEdge]
   \<and> generateMermaidCode lookalike = Inr
        ''erDiagram\<newline> User {\<newline>  int id PK\<newline> }\<newline>\<newline> user_groups {\<newline>  int user_id PK,FK\<newline>  int group_id PK,FK\<newline> }\<newline>\<newline> Group {\<newline>  int id PK\<newline> }\<newline>\<newline> user_groups {\<newline>  int user_id PK,FK\<newline>  int group_id PK,FK\<newline> }\<newline>\<newline> User |o--o{ user_groups : groups-users\<newline> Group |o--o{ user_groups : users-groups\<newline>''
   \<and> occurrences (joinTableBlock ''user_groups'' [''user_id'', ''group_id''])
        ''erDiagram\<newline> User {\<newline>  int id PK\<newline> }\<newline>\<newline> user_groups {\<newline>  int user_id PK,FK\<newline>  int group_id PK,FK\<newline> }\<newline>\<newline> Group {\<newline>  int id PK\<newline> }\<newline>\<newline> user_groups {\<newline>  int user_id PK,FK\<newline>  int group_id PK,FK\<newline> }\<newline>\<newline> User |o--o{ user_groups : groups-users\<newline> Group |o--o{ user_groups : users-groups\<newline>'' = 2"
proof -
  have 1: "filter Edge_M2M (allEdges sharedTable) = [groupsEdge, adminOfEdge, usersEdge, adminsEdge]"
    by (simp add: fixture_defs cex_defs model_defs)
  have 2: "filter IsInverse [groupsEdge, usersEdge] = [usersEdge]"
    by (simp add: fixture_defs cex_defs model_defs)
  have 3: "filter IsInverse [adminOfEdge, adminsEdge] = [adminsEdge]"
    by (simp add: fixture_defs cex_defs model_defs)
  have 4: "generateMermaidCode sharedTable = Inr
        ''erDiagram\<newline> User {\<newline>  int id PK\<newline> }\<newline>\<newline> user_groups {\<newline>  int user_id PK,FK\<newline>  int group_id PK,FK\<newline> }\<newline>\<newline> user_groups {\<newline>  int user_id PK,FK\<newline>  int group_id PK,FK\<newline> }\<newline>\<newline> Group {\<newline>  int id PK\<newline> }\<newline>\<newline> User |o--o{ user_groups : groups-users\<newline> User |o--o{ user_groups : admin_of-admins\<newline> Group |o--o{ user_groups : users-groups\<newline> Group |o--o{ user_groups : admins-admin_of\<newline>''"
    by code_simp
  have 5: "occurrences (joinTableBlock ''user_groups'' [''user_id'', ''group_id''])
        ''erDiagram\<newline> User {\<newline>  int id PK\<newline> }\<newline>\<newline> user_groups {\<newline>  int user_id PK,FK\<newline>  int group_id PK,FK\<newline> }\<newline>\<newline> user_groups {\<newline>  int user_id PK,FK\<newline>  int group_id PK,FK\<newline> }\<newline>\<newline> Group {\<newline>  int id PK\<newline> }\<newline>\<newline> User |o--o{ user_groups : groups-users\<newline> User |o--o{ user_groups : admin_of-admins\<newline> Group |o--o{ user_groups : users-groups\<newline> Group |o--o{ user_groups : admins-admin_of\<newline>'' = 2"
    by code_simp
  have 6: "filter Edge_M2M (allEdges lookalike) = [groupsEdge, usersEdge]"
    by (simp add: fixture_defs cex_defs model_defs)
  have 7: "generateMermaidCode lookalike = Inr
        ''erDiagram\<newline> User {\<newline>  int id PK\<newline> }\<newline>\<newline> user_groups {\<newline>  int user_id PK,FK\<newline>  int group_id PK,FK\<newline> }\<newline>\<newline> Group {\<newline>  int id PK\<newline> }\<newline>\<newline> user_groups {\<newline>  int user_id PK,FK\<newline>  int group_id PK,FK\<newline> }\<newline>\<newline> User |o--o{ user_groups : groups-users\<newline> Group |o--o{ user_groups : users-groups\<newline>''"
    by code_simp
  have 8: "occurrences (joinTableBlock ''user_groups'' [''user_id'', ''group_id''])
        ''erDiagram\<newline> User {\<newline>  int id PK\<newline> }\<newline>\<newline> user_groups {\<newline>  int user_id PK,FK\<newline>  int group_id PK,FK\<newline> }\<newline>\<newline> Group {\<newline>  int id PK\<newline> }\<newline>\<newline> user_groups {\<newline>  int user_id PK,FK\<newline>  int group_id PK,FK\<newline> }\<newline>\<newline> User |o--o{ user_groups : groups-users\<newline> Group |o--o{ user_groups : users-groups\<newline>'' = 2"
    by code_simp
  from 1 2 3 4 5 6 7 8 show ?thesis by blast
qed

end
